theory Spec2Isabelle
  imports Complex_Main
begin

section \<open>Values, errors and parameter objects\<close>

text \<open>
  The script \<^verbatim>\<open>scripts/train.py\<close> reads every setting from a parameters object
  loaded from a YAML file. Its attributes are dynamically typed, so a value is one of
  the YAML scalars or a list of values.
\<close>

datatype pyval = PNone | PBool bool | PInt int | PStr string | PList "pyval list"

text \<open>
  Every exception that can leave a function of the script is a value of \<open>error\<close>;
  a function that may raise returns \<open>error + 'a\<close>, with \<open>Inl\<close> for the exception.
\<close>

datatype error =
    AttributeError string
  | TypeError
  | ValueError
  | ZeroDivisionError
  | UnboundLocalError string
  | FileExistsError string
  | ConfigError
  | ParseError
  | EndOfEpoch
  | FailedPrecondition

definition bindE :: "error + 'a \<Rightarrow> ('a \<Rightarrow> error + 'b) \<Rightarrow> error + 'b" where
  "bindE m f = (case m of Inl e \<Rightarrow> Inl e | Inr v \<Rightarrow> f v)"

text \<open>
  The parameters object, in the order of the file. Reading an attribute that the object
  does not have raises \<open>AttributeError\<close>, as attribute access does in Python.
\<close>

type_synonym hparams = "(string \<times> pyval) list"

definition getattr :: "hparams \<Rightarrow> string \<Rightarrow> error + pyval" where
  "getattr hp k = (case map_of hp k of None \<Rightarrow> Inl (AttributeError k) | Some v \<Rightarrow> Inr v)"

definition as_str :: "pyval \<Rightarrow> error + string" where
  "as_str v = (case v of PStr s \<Rightarrow> Inr s | _ \<Rightarrow> Inl TypeError)"

definition as_int :: "pyval \<Rightarrow> error + int" where
  "as_int v = (case v of PInt i \<Rightarrow> Inr i | _ \<Rightarrow> Inl TypeError)"

definition get_str :: "hparams \<Rightarrow> string \<Rightarrow> error + string" where
  "get_str hp k = bindE (getattr hp k) as_str"

definition get_int :: "hparams \<Rightarrow> string \<Rightarrow> error + int" where
  "get_int hp k = bindE (getattr hp k) as_int"

text \<open>Python's truth value of an object, as \<^verbatim>\<open>if hparams.modelFolder:\<close> tests it.\<close>

fun truthy :: "pyval \<Rightarrow> bool" where
  "truthy PNone = False"
| "truthy (PBool b) = b"
| "truthy (PInt i) = (i \<noteq> 0)"
| "truthy (PStr s) = (s \<noteq> [])"
| "truthy (PList vs) = (vs \<noteq> [])"

text \<open>\<^verbatim>\<open>str.upper\<close> on ASCII letters; a value that is not a string has no such method.\<close>

definition upper_char :: "char \<Rightarrow> char" where
  "upper_char c =
     (case map_of (zip ''abcdefghijklmnopqrstuvwxyz'' ''ABCDEFGHIJKLMNOPQRSTUVWXYZ'') c of
        Some u \<Rightarrow> u
      | None \<Rightarrow> c)"

definition upper :: "pyval \<Rightarrow> error + string" where
  "upper v = (case v of PStr s \<Rightarrow> Inr (map upper_char s) | _ \<Rightarrow> Inl (AttributeError ''upper''))"

section \<open>Paths and directories\<close>

text \<open>
  \<^verbatim>\<open>os.path.join\<close> on POSIX: an absolute second component replaces the first, and a
  separator is inserted unless the first component is empty or already ends with one.
\<close>

definition path_join :: "string \<Rightarrow> string \<Rightarrow> string" where
  "path_join a b =
     (if b \<noteq> [] \<and> hd b = CHR ''/'' then b
      else if a = [] \<or> last a = CHR ''/'' then a @ b
      else a @ ''/'' @ b)"

definition path_join3 :: "string \<Rightarrow> string \<Rightarrow> string \<Rightarrow> string" where
  "path_join3 a b c = path_join (path_join a b) c"

text \<open>
  The file system is the set of paths that exist, compared as strings. \<^verbatim>\<open>os.makedirs\<close>
  raises when the leaf exists and otherwise creates it with every missing ancestor.
\<close>

definition ancestors :: "string \<Rightarrow> string list" where
  "ancestors p =
     [take n p. n \<leftarrow> [1..<length p], p ! n = CHR ''/'']"

definition makedirs :: "string set \<Rightarrow> string \<Rightarrow> error + string set" where
  "makedirs dirs p =
     (if p \<in> dirs then Inl (FileExistsError p)
      else Inr (insert p (set (ancestors p) \<union> dirs)))"

section \<open>The logger set-up\<close>

text \<open>The parsed command line: \<^verbatim>\<open>modelParams\<close>, \<^verbatim>\<open>--logLevel\<close>, \<^verbatim>\<open>--logFolder\<close>.\<close>

record args =
  modelParams :: string
  logLevel :: "string option"
  logFolder :: "string option"

text \<open>
  What \<^verbatim>\<open>logger(hparams, args)\<close> leaves behind: the level given to
  \<^verbatim>\<open>setLevel\<close>, the file of the file handler (if one is added) and the directories.
\<close>

record log_config =
  level :: string
  file_handler :: "string option"
  log_dirs :: "string set"

text \<open>
  Lines 18 to 34: the log file name and the folder, from the command line first and from
  the parameters otherwise; the folder is created when it does not exist.
\<close>

definition logger_folder ::
  "hparams \<Rightarrow> args \<Rightarrow> string set \<Rightarrow> error + (string option \<times> string set)" where
  "logger_folder hp a dirs =
     bindE (get_str hp ''name'') (\<lambda>name.
     let log_file = name @ ''-train.log'' in
     bindE (case logFolder a of
              Some f \<Rightarrow> Inr (Some f)
            | None \<Rightarrow>
                bindE (getattr hp ''logFolder'') (\<lambda>v.
                  if v \<noteq> PNone then bindE (as_str v) (\<lambda>f. Inr (Some f)) else Inr None))
       (\<lambda>log_folder.
          case log_folder of
            None \<Rightarrow> Inr (None, dirs)
          | Some f \<Rightarrow>
              if f \<notin> dirs
              then bindE (makedirs dirs f) (\<lambda>dirs'. Inr (Some (path_join f log_file), dirs'))
              else Inr (Some (path_join f log_file), dirs)))"

text \<open>
  Lines 36 to 40: the level. Without a level on the command line the test reads the
  attribute \<^verbatim>\<open>logLeve\<close>, and only the assignment reads \<^verbatim>\<open>logLevel\<close>.
\<close>

definition logger_level :: "hparams \<Rightarrow> args \<Rightarrow> error + string" where
  "logger_level hp a =
     (case logLevel a of
        Some l \<Rightarrow> upper (PStr l)
      | None \<Rightarrow>
          bindE (getattr hp ''logLeve'') (\<lambda>v.
            if v \<noteq> PNone then bindE (getattr hp ''logLevel'') upper
            else Inr ''INFO''))"

text \<open>
  Lines 42 to 60 install the handlers and set the level; these are calls into the
  logging library, whose own failures are not part of the model.
\<close>

definition logger :: "hparams \<Rightarrow> args \<Rightarrow> string set \<Rightarrow> error + log_config" where
  "logger hp a dirs =
     bindE (logger_folder hp a dirs) (\<lambda>(fh, dirs').
     bindE (logger_level hp a) (\<lambda>lv.
       Inr \<lparr>level = lv, file_handler = fh, log_dirs = dirs'\<rparr>))"

section \<open>Trajectory records and the sequence windower\<close>

text \<open>
  Modelled from the spec: the loader \<^verbatim>\<open>utils.DataLoader\<close> is not part of the script.
  A frame is a timestamp with the observations \<open>(agentId, x, y)\<close> made at that time; a
  dataset is the ordered sequence of its frames.
\<close>

type_synonym observation = "int \<times> real \<times> real"

record frame =
  timestamp :: int
  observations :: "observation list"

definition agent_ids :: "frame \<Rightarrow> int list" where
  "agent_ids f = map fst (observations f)"

text \<open>
  Modelled from the spec: a scene window carries its identifier (the dataset and the index
  of its first frame), its frames, the ordered assignment of agent slots to agent ids and
  the presence flags per frame and slot.
\<close>

record window =
  dataset_index :: nat
  first_frame :: nat
  wframes :: "frame list"
  slots :: "int list"
  presence :: "bool list list"

text \<open>The identifier of a window.\<close>

definition wid :: "window \<Rightarrow> nat \<times> nat" where
  "wid w = (dataset_index w, first_frame w)"

text \<open>The elements of a list in the order of their first occurrence.\<close>

definition first_seen :: "'a list \<Rightarrow> 'a list" where
  "first_seen xs = rev (remdups (rev xs))"

text \<open>
  Modelled from the spec: the window of \<open>ts\<close> consecutive frames that starts at frame
  index \<open>i\<close>. The agents present in at least one frame are collected in first-seen order
  and the first \<open>m\<close> of them keep a slot.
\<close>

definition window_at :: "nat \<Rightarrow> nat \<Rightarrow> nat \<Rightarrow> frame list \<Rightarrow> nat \<Rightarrow> window" where
  "window_at ts m d frames i =
     (let fs = take ts (drop i frames);
          agents = take m (first_seen (concat (map agent_ids fs)))
      in \<lparr>dataset_index = d, first_frame = i, wframes = fs, slots = agents,
          presence = map (\<lambda>f. map (\<lambda>a. a \<in> set (agent_ids f)) agents) fs\<rparr>)"

text \<open>
  Modelled from the spec: a window starts at every \<open>skip\<close>-th frame index that leaves room
  for \<open>ts\<close> frames. The spec describes positive strides only; a stride of 0 leaves the
  start 0 alone.
\<close>

definition window_starts :: "nat \<Rightarrow> nat \<Rightarrow> nat \<Rightarrow> nat list" where
  "window_starts n ts skip =
     (if ts \<le> n then filter (\<lambda>i. i mod skip = 0) [0..<Suc (n - ts)] else [])"

text \<open>
  Modelled from the spec: the number of frames of the window in which the primary agent
  (the agent of slot 0) is present; a window where it is below 2 is excluded.
\<close>

definition primary_presence :: "window \<Rightarrow> nat" where
  "primary_presence w =
     (case slots w of
        [] \<Rightarrow> 0
      | a # _ \<Rightarrow> length (filter (\<lambda>f. a \<in> set (agent_ids f)) (wframes w)))"

text \<open>
  Modelled from the spec: the windows of the dataset \<open>d\<close>, in the order of their first
  frames, without the excluded ones.
\<close>

definition windower :: "nat \<Rightarrow> nat \<Rightarrow> nat \<Rightarrow> nat \<Rightarrow> frame list \<Rightarrow> window list" where
  "windower ts m skip d frames =
     filter (\<lambda>w. 2 \<le> primary_presence w)
       (map (window_at ts m d frames) (window_starts (length frames) ts skip))"

text \<open>
  Modelled from the spec: the loader built by
  \<^verbatim>\<open>utils.DataLoader(dataPath, datasets, delimiter, skip, max_num_ped, trajectory_size)\<close>,
  here on the parsed datasets. A non-positive agent cap or window length is a
  configuration error raised before any windowing. The loader exposes its windows and
  their count, and flags a split that produced no window.
\<close>

record loader =
  sequences :: "window list"
  num_sequences :: int
  empty_dataset_warning :: bool

definition DataLoader :: "frame list list \<Rightarrow> int \<Rightarrow> int \<Rightarrow> int \<Rightarrow> error + loader" where
  "DataLoader data skip max_num_ped trajectory_size =
     (if max_num_ped \<le> 0 \<or> trajectory_size \<le> 0 then Inl ConfigError
      else
        let ws = concat (map (\<lambda>(d, frames).
                   windower (nat trajectory_size) (nat max_num_ped) (nat skip) d frames)
                   (enumerate 0 data))
        in Inr \<lparr>sequences = ws, num_sequences = int (length ws),
                empty_dataset_warning = (ws = [])\<rparr>)"

section \<open>The dataset pipeline\<close>

text \<open>
  Modelled from the spec: \<^verbatim>\<open>utils.TrajectoriesDataset\<close> is not part of the script. It
  wraps the windows of the training loader and of the validation loader into two
  iteration handles with independent resets; the model reads from the handle that was
  initialised last. Advancing yields one window; advancing past the last window
  raises \<open>EndOfEpoch\<close>.
\<close>

datatype split = Train | Val

record pipeline =
  train_windows :: "window list"
  val_windows :: "window list"
  train_pos :: nat
  val_pos :: nat
  active :: "split option"
  prefetch_size :: int

definition TrajectoriesDataset :: "loader \<Rightarrow> loader \<Rightarrow> int \<Rightarrow> pipeline" where
  "TrajectoriesDataset train_loader val_loader prefetch =
     \<lparr>train_windows = sequences train_loader, val_windows = sequences val_loader,
      train_pos = 0, val_pos = 0, active = None, prefetch_size = prefetch\<rparr>"

text \<open>
  Modelled from the spec: the resets \<^verbatim>\<open>dataset.init_train\<close> and
  \<^verbatim>\<open>dataset.init_val\<close> re-establish the first window of their handle and make it the
  one that the model reads.
\<close>

definition init_train :: "pipeline \<Rightarrow> pipeline" where
  "init_train p = p\<lparr>train_pos := 0, active := Some Train\<rparr>"

definition init_val :: "pipeline \<Rightarrow> pipeline" where
  "init_val p = p\<lparr>val_pos := 0, active := Some Val\<rparr>"

text \<open>
  Modelled from the spec: one advance of the active handle, as a run of the model's loss
  makes it. Before any reset there is no active handle and the advance fails.
\<close>

definition advance :: "pipeline \<Rightarrow> error + (window \<times> pipeline)" where
  "advance p =
     (case active p of
        None \<Rightarrow> Inl FailedPrecondition
      | Some Train \<Rightarrow>
          if train_pos p < length (train_windows p)
          then Inr (train_windows p ! train_pos p, p\<lparr>train_pos := Suc (train_pos p)\<rparr>)
          else Inl EndOfEpoch
      | Some Val \<Rightarrow>
          if val_pos p < length (val_windows p)
          then Inr (val_windows p ! val_pos p, p\<lparr>val_pos := Suc (val_pos p)\<rparr>)
          else Inl EndOfEpoch)"

text \<open>Advancing \<open>n\<close> times, collecting the windows; the first failure ends the iteration.\<close>

fun iterate :: "nat \<Rightarrow> pipeline \<Rightarrow> error + (window list \<times> pipeline)" where
  "iterate 0 p = Inr ([], p)"
| "iterate (Suc n) p =
     bindE (advance p) (\<lambda>(w, p').
     bindE (iterate n p') (\<lambda>(ws, p''). Inr (w # ws, p'')))"

section \<open>The coordinate helper\<close>

text \<open>
  Modelled from the spec: \<^verbatim>\<open>coordinates_helpers.train_helper\<close> is not part of the
  script. A tensor is a list of frames, each a list over the agent slots. Positions are
  pairs of reals, so the arithmetic is exact; the rounding of floating-point numbers is
  outside the model. The sentinel is zero.
\<close>

type_synonym pos = "real \<times> real"

definition padd :: "pos \<Rightarrow> pos \<Rightarrow> pos" where
  "padd p q = (fst p + fst q, snd p + snd q)"

definition psub :: "pos \<Rightarrow> pos \<Rightarrow> pos" where
  "psub p q = (fst p - fst q, snd p - snd q)"

definition sentinel :: pos where
  "sentinel = (0, 0)"

definition tensor_shape :: "'a list list \<Rightarrow> nat \<Rightarrow> nat \<Rightarrow> bool" where
  "tensor_shape x frames_n slots_n \<longleftrightarrow>
     length x = frames_n \<and> list_all (\<lambda>row. length row = slots_n) x"

text \<open>
  Modelled from the spec: \<open>relative[t] = positions[t] - positions[t-1]\<close> where both
  \<open>mask[t]\<close> and \<open>mask[t-1]\<close> hold, else the sentinel; the value of frame 0 is the
  sentinel. The mask has the shape of the positions (\<open>tensor_shape\<close>), which the
  properties below assume.
\<close>

definition toRelative :: "pos list list \<Rightarrow> bool list list \<Rightarrow> pos list list" where
  "toRelative positions msk =
     map (\<lambda>t. map (\<lambda>j.
            if t = 0 then sentinel
            else if msk ! t ! j \<and> msk ! (t - 1) ! j
                 then psub (positions ! t ! j) (positions ! (t - 1) ! j)
                 else sentinel)
          [0..<length (positions ! t)])
       [0..<length positions]"

text \<open>
  Modelled from the spec: the absolute positions are the cumulative sums of the
  displacements, starting from the origin positions, which are the positions of frame 0;
  the relative value of frame 0 is the sentinel and is not added.
\<close>

fun cumulative :: "pos list \<Rightarrow> pos list list \<Rightarrow> pos list list" where
  "cumulative cur [] = []"
| "cumulative cur (d # ds) =
     (let nxt = map2 padd cur d in nxt # cumulative nxt ds)"

definition toAbsolute :: "pos list \<Rightarrow> pos list list \<Rightarrow> pos list list" where
  "toAbsolute origin_positions relative =
     (case relative of [] \<Rightarrow> [] | _ # ds \<Rightarrow> origin_positions # cumulative origin_positions ds)"

text \<open>The mask chain of slot \<open>j\<close> holds from frame 0 to frame \<open>t\<close>.\<close>

definition mask_chain :: "bool list list \<Rightarrow> nat \<Rightarrow> nat \<Rightarrow> bool" where
  "mask_chain msk j t \<longleftrightarrow> list_all (\<lambda>k. msk ! k ! j) [0..<Suc t]"

section \<open>The pooling module\<close>

text \<open>
  The pooling variants that \<^verbatim>\<open>main\<close> selects by the parameter \<^verbatim>\<open>poolingModule\<close>.
\<close>

datatype pooling = Combined "string list" | Social | Occupancy

definition recognized :: "pyval \<Rightarrow> bool" where
  "recognized v \<longleftrightarrow> v = PStr ''social'' \<or> v = PStr ''occupancy''"

text \<open>
  Modelled from the spec: \<^verbatim>\<open>pooling_layers.CombinedPooling(hparams)\<close> is not part of
  the script. It fails with \<open>ConfigError\<close> if the list is empty or contains an
  unrecognized module name.
\<close>

definition CombinedPooling :: "hparams \<Rightarrow> error + pooling" where
  "CombinedPooling hp =
     bindE (getattr hp ''poolingModule'') (\<lambda>pm.
       case pm of
         PList vs \<Rightarrow>
           if vs = [] \<or> \<not> list_all recognized vs then Inl ConfigError
           else Inr (Combined (concat (map (\<lambda>v. case v of PStr s \<Rightarrow> [s] | _ \<Rightarrow> []) vs)))
       | _ \<Rightarrow> Inl ConfigError)"

text \<open>
  Lines 145 to 161 of \<^verbatim>\<open>main\<close>: the pooling module starts as \<open>None\<close>; a list selects
  the combined pooling, the names \<open>social\<close> and \<open>occupancy\<close> their pooling, and the
  chain has no final \<^verbatim>\<open>else\<close>.
\<close>

definition select_pooling :: "hparams \<Rightarrow> error + pooling option" where
  "select_pooling hp =
     bindE (getattr hp ''poolingModule'') (\<lambda>pm.
       case pm of
         PList vs \<Rightarrow> bindE (CombinedPooling hp) (\<lambda>p. Inr (Some p))
       | _ \<Rightarrow>
           if pm = PStr ''social'' then Inr (Some Social)
           else if pm = PStr ''occupancy'' then Inr (Some Occupancy)
           else Inr None)"

section \<open>The training script\<close>

text \<open>
  What the script does to the world outside it, in order: a loader built for a split
  (with the number of its sequences), the model built with the selected pooling module,
  an iterator initialised, a training or validation step on a window (named by its
  identifier) with its loss, the mean validation loss of an epoch, a save by a saver to a path with its global step, and
  the reset of the default graph.
\<close>

text \<open>
  A call of a collaborator is recorded and taken to return; what the library does inside
  the call (building the network, writing a checkpoint) is not part of the model. The
  numeric parameters are integers: a parameter of another type is reported as a
  \<open>TypeError\<close> where the script reads it.
\<close>

datatype event =
    EvLoader split int
  | EvModel "pooling option"
  | EvInit split
  | EvTrainStep "nat \<times> nat" real
  | EvValStep "nat \<times> nat" real
  | EvMeanVal int real
  | EvSave string string "int option"
  | EvReset

text \<open>
  The collaborators that the script calls and that are not part of it: the directory
  test and listing of the command-line path, the parameters file of an experiment, the
  parsed datasets of a split (from \<^verbatim>\<open>dataPath\<close>, the dataset names and the
  delimiter), and the loss that the network returns for a window after the events so far.
\<close>

record env =
  is_dir :: "string \<Rightarrow> bool"
  listdir :: "string \<Rightarrow> string list"
  YParams :: "string \<Rightarrow> hparams"
  read_datasets :: "pyval \<Rightarrow> pyval \<Rightarrow> pyval \<Rightarrow> error + frame list list"
  loss_of :: "event list \<Rightarrow> window \<Rightarrow> real"

text \<open>
  The state that \<^verbatim>\<open>main\<close> carries from one experiment to the next: the directories,
  the events so far, and the local variables that only the branch of line 179 assigns
  (\<open>None\<close> while a variable is unbound). The saver is named after the experiment whose
  graph it was created in.
\<close>

record world =
  dirs :: "string set"
  trace :: "event list"
  save_model :: "bool option"
  model_path :: "string option"
  checkpoints_path :: "string option"
  saver :: "string option"

text \<open>The state inside \<^verbatim>\<open>with tf.Session() as sess\<close>: the iterator and the events.\<close>

record session =
  pipe :: pipeline
  events :: "event list"

definition read_local :: "string \<Rightarrow> 'a option \<Rightarrow> error + 'a" where
  "read_local name v = (case v of None \<Rightarrow> Inl (UnboundLocalError name) | Some x \<Rightarrow> Inr x)"

text \<open>Lines 87 to 94: a folder of parameter files, or one file.\<close>

definition experiments_of :: "env \<Rightarrow> args \<Rightarrow> string list" where
  "experiments_of env a =
     (if is_dir env (modelParams a)
      then map (path_join (modelParams a)) (listdir env (modelParams a))
      else [modelParams a])"

text \<open>Line 113.\<close>

definition trajectory_size :: "hparams \<Rightarrow> error + int" where
  "trajectory_size hp =
     bindE (get_int hp ''obsLen'') (\<lambda>obs.
     bindE (get_int hp ''predLen'') (\<lambda>pred. Inr (obs + pred)))"

text \<open>
  Lines 116 to 132: one call of \<^verbatim>\<open>utils.DataLoader\<close>, for the datasets named by the
  attribute \<open>key\<close>; the arguments are read in the order of the call.
\<close>

definition make_loader :: "env \<Rightarrow> hparams \<Rightarrow> string \<Rightarrow> int \<Rightarrow> error + loader" where
  "make_loader env hp key ts =
     bindE (getattr hp ''dataPath'') (\<lambda>data_path.
     bindE (getattr hp key) (\<lambda>datasets.
     bindE (getattr hp ''delimiter'') (\<lambda>delimiter.
     bindE (get_int hp ''skip'') (\<lambda>skip.
     bindE (get_int hp ''maxNumPed'') (\<lambda>max_num_ped.
     bindE (read_datasets env data_path datasets delimiter) (\<lambda>data.
       DataLoader data skip max_num_ped ts))))))"

text \<open>Lines 113 to 132: the window length and the two loaders built with it.\<close>

definition load_data :: "env \<Rightarrow> hparams \<Rightarrow> error + (loader \<times> loader)" where
  "load_data env hp =
     bindE (trajectory_size hp) (\<lambda>ts.
     bindE (make_loader env hp ''trainDatasets'' ts) (\<lambda>train_loader.
     bindE (make_loader env hp ''validationDatasets'' ts) (\<lambda>val_loader.
       Inr (train_loader, val_loader))))"

text \<open>\<^verbatim>\<open>hparams.add_hparam\<close> (line 163) refuses a name that the object already has.\<close>

definition add_hparam :: "hparams \<Rightarrow> string \<Rightarrow> pyval \<Rightarrow> error + hparams" where
  "add_hparam hp k v = (if map_of hp k \<noteq> None then Inl ValueError else Inr (hp @ [(k, v)]))"

text \<open>
  Lines 179 to 188: with a model folder configured, the folder of the experiment and
  its \<^verbatim>\<open>checkpoints\<close> subfolder are created if the folder of the experiment does not
  exist, and the paths and the saver are bound. Without one, nothing is assigned.
\<close>

definition setup_saving :: "hparams \<Rightarrow> world \<Rightarrow> error + world" where
  "setup_saving hp w =
     bindE (getattr hp ''modelFolder'') (\<lambda>mf.
       if truthy mf then
         bindE (as_str mf) (\<lambda>folder.
         bindE (get_str hp ''name'') (\<lambda>name.
         let model_folder = path_join folder name in
         bindE (if model_folder \<notin> dirs w
                then bindE (makedirs (dirs w) model_folder) (\<lambda>d.
                       makedirs d (path_join model_folder ''checkpoints''))
                else Inr (dirs w)) (\<lambda>d.
           Inr (w\<lparr>dirs := d,
                  save_model := Some True,
                  model_path := Some (path_join model_folder name),
                  checkpoints_path := Some (path_join3 model_folder ''checkpoints'' name),
                  saver := Some name\<rparr>))))
       else Inr w)"

text \<open>Lines 210 to 223: one training step per counted sequence.\<close>

fun train_steps :: "env \<Rightarrow> nat \<Rightarrow> session \<Rightarrow> error + session" where
  "train_steps env 0 s = Inr s"
| "train_steps env (Suc n) s =
     bindE (advance (pipe s)) (\<lambda>(win, p).
       train_steps env n
         (s\<lparr>pipe := p, events := events s @ [EvTrainStep (wid win) (loss_of env (events s) win)]\<rparr>))"

text \<open>Lines 232 to 234: one validation step per counted sequence, summing the losses.\<close>

fun val_steps :: "env \<Rightarrow> nat \<Rightarrow> real \<Rightarrow> session \<Rightarrow> error + (real \<times> session)" where
  "val_steps env 0 loss_val s = Inr (loss_val, s)"
| "val_steps env (Suc n) loss_val s =
     bindE (advance (pipe s)) (\<lambda>(win, p).
       let loss = loss_of env (events s) win in
       val_steps env n (loss_val + loss)
         (s\<lparr>pipe := p, events := events s @ [EvValStep (wid win) loss]\<rparr>))"

text \<open>Line 236: the division raises when the validation loader counts no sequence.\<close>

definition mean_val :: "real \<Rightarrow> int \<Rightarrow> error + real" where
  "mean_val loss_val n = (if n = 0 then Inl ZeroDivisionError else Inr (loss_val / real_of_int n))"

text \<open>Lines 243 to 251: the guard reads the local variable \<^verbatim>\<open>save_model\<close>.\<close>

definition save_checkpoint :: "world \<Rightarrow> int \<Rightarrow> session \<Rightarrow> error + session" where
  "save_checkpoint w epoch s =
     bindE (read_local ''save_model'' (save_model w)) (\<lambda>sm.
       if sm then
         bindE (read_local ''saver'' (saver w)) (\<lambda>sv.
         bindE (read_local ''checkpoints_path'' (checkpoints_path w)) (\<lambda>cp.
           Inr (s\<lparr>events := events s @ [EvSave sv cp (Some (epoch + 1))]\<rparr>)))
       else Inr s)"

text \<open>Lines 253 and 254: the same guard, for the final model.\<close>

definition save_final :: "world \<Rightarrow> session \<Rightarrow> error + session" where
  "save_final w s =
     bindE (read_local ''save_model'' (save_model w)) (\<lambda>sm.
       if sm then
         bindE (read_local ''saver'' (saver w)) (\<lambda>sv.
         bindE (read_local ''model_path'' (model_path w)) (\<lambda>mp.
           Inr (s\<lparr>events := events s @ [EvSave sv mp None]\<rparr>)))
       else Inr s)"

text \<open>Lines 203 to 251: the body of the loop over the epochs.\<close>

definition training_phase :: "env \<Rightarrow> loader \<Rightarrow> session \<Rightarrow> error + session" where
  "training_phase env train_loader s =
     train_steps env (nat (num_sequences train_loader))
       (s\<lparr>pipe := init_train (pipe s), events := events s @ [EvInit Train]\<rparr>)"

definition validation_phase :: "env \<Rightarrow> loader \<Rightarrow> int \<Rightarrow> session \<Rightarrow> error + session" where
  "validation_phase env val_loader epoch s =
     bindE (val_steps env (nat (num_sequences val_loader)) 0
              (s\<lparr>pipe := init_val (pipe s), events := events s @ [EvInit Val]\<rparr>))
       (\<lambda>(loss_val, s').
     bindE (mean_val loss_val (num_sequences val_loader)) (\<lambda>m.
       Inr (s'\<lparr>events := events s' @ [EvMeanVal (epoch + 1) m]\<rparr>)))"

definition run_epoch :: "env \<Rightarrow> loader \<Rightarrow> loader \<Rightarrow> world \<Rightarrow> int \<Rightarrow> session \<Rightarrow> error + session" where
  "run_epoch env train_loader val_loader w epoch s =
     bindE (training_phase env train_loader s) (\<lambda>s1.
     bindE (validation_phase env val_loader epoch s1) (\<lambda>s2.
       save_checkpoint w epoch s2))"

text \<open>Line 202: \<^verbatim>\<open>for epoch in range(hparams.epochs)\<close>, with \<open>k\<close> epochs still to run.\<close>

fun epochs_loop ::
  "env \<Rightarrow> loader \<Rightarrow> loader \<Rightarrow> world \<Rightarrow> nat \<Rightarrow> int \<Rightarrow> session \<Rightarrow> error + session" where
  "epochs_loop env train_loader val_loader w 0 epoch s = Inr s"
| "epochs_loop env train_loader val_loader w (Suc k) epoch s =
     bindE (run_epoch env train_loader val_loader w epoch s)
       (epochs_loop env train_loader val_loader w k (epoch + 1))"

text \<open>Lines 192 to 254: the session.\<close>

definition run_session ::
  "env \<Rightarrow> hparams \<Rightarrow> loader \<Rightarrow> loader \<Rightarrow> world \<Rightarrow> session \<Rightarrow> error + session" where
  "run_session env hp train_loader val_loader w s =
     bindE (get_int hp ''epochs'') (\<lambda>n.
     bindE (epochs_loop env train_loader val_loader w (nat n) 0 s) (\<lambda>s'.
       save_final w s'))"

text \<open>Lines 97 to 255: the body of the loop over the experiments.\<close>

definition run_experiment :: "env \<Rightarrow> args \<Rightarrow> world \<Rightarrow> string \<Rightarrow> error + world" where
  "run_experiment env a w path =
     (let hp = YParams env path in
      bindE (logger hp a (dirs w)) (\<lambda>lc.
      bindE (load_data env hp) (\<lambda>(train_loader, val_loader).
      bindE (get_int hp ''prefetchSize'') (\<lambda>prefetch.
      let dataset = TrajectoriesDataset train_loader val_loader prefetch in
      bindE (select_pooling hp) (\<lambda>pooling_module.
      bindE (add_hparam hp ''learningRateSteps'' (PInt (num_sequences train_loader))) (\<lambda>hp'.
      let w1 = w\<lparr>dirs := log_dirs lc,
                 trace := trace w @ [EvLoader Train (num_sequences train_loader),
                                     EvLoader Val (num_sequences val_loader),
                                     EvModel pooling_module]\<rparr> in
      bindE (setup_saving hp' w1) (\<lambda>w2.
      bindE (run_session env hp' train_loader val_loader w2
               \<lparr>pipe = dataset, events = trace w2\<rparr>) (\<lambda>s.
        Inr (w2\<lparr>trace := events s @ [EvReset]\<rparr>)))))))))"

text \<open>Line 96: the experiments run in order; an exception ends the script.\<close>

fun run_experiments :: "env \<Rightarrow> args \<Rightarrow> string list \<Rightarrow> world \<Rightarrow> error + world" where
  "run_experiments env a [] w = Inr w"
| "run_experiments env a (e # es) w =
     bindE (run_experiment env a w e) (run_experiments env a es)"

definition initial_world :: "string set \<Rightarrow> world" where
  "initial_world d =
     \<lparr>dirs = d, trace = [], save_model = None, model_path = None,
      checkpoints_path = None, saver = None\<rparr>"

definition main :: "env \<Rightarrow> args \<Rightarrow> string set \<Rightarrow> error + world" where
  "main env a d = run_experiments env a (experiments_of env a) (initial_world d)"

section \<open>A small experiment\<close>

text \<open>
  One dataset of three frames: agent 1 is seen in every frame, agent 2 in the first two
  and agent 3 in the last one.
\<close>

definition example_frames :: "frame list" where
  "example_frames =
     [\<lparr>timestamp = 0, observations = [(1, 0, 0), (2, 1, 1)]\<rparr>,
      \<lparr>timestamp = 10, observations = [(1, 1, 0), (2, 1, 2)]\<rparr>,
      \<lparr>timestamp = 20, observations = [(1, 2, 0), (3, 5, 5)]\<rparr>]"

text \<open>
  The parameters of an experiment named \<open>name\<close> with windows of \<open>obs + 1\<close> frames, at
  most two agents per window, a pooling module \<open>pm\<close>, a model folder \<open>mf\<close> and \<open>n\<close>
  epochs.
\<close>

definition example_hparams :: "string \<Rightarrow> int \<Rightarrow> pyval \<Rightarrow> pyval \<Rightarrow> int \<Rightarrow> hparams" where
  "example_hparams name obs pm mf n =
     [(''name'', PStr name), (''logFolder'', PNone), (''logLevel'', PNone),
      (''obsLen'', PInt obs), (''predLen'', PInt 1), (''dataPath'', PStr ''data''),
      (''trainDatasets'', PList [PStr ''train'']),
      (''validationDatasets'', PList [PStr ''val'']),
      (''delimiter'', PStr ''tab''), (''skip'', PInt 1), (''maxNumPed'', PInt 2),
      (''prefetchSize'', PInt 1), (''poolingModule'', pm), (''modelFolder'', mf),
      (''epochs'', PInt n)]"

text \<open>
  The collaborators of the small experiment: the command-line path is a folder with the
  parameter files \<open>files\<close>, the file \<open>f\<close> holds the parameters \<open>params f\<close>, the
  training split reads the frames \<open>train\<close> and the validation split the frames
  \<open>val\<close>, and every loss is 1.
\<close>

definition example_env ::
  "string list \<Rightarrow> (string \<Rightarrow> hparams) \<Rightarrow> frame list \<Rightarrow> frame list \<Rightarrow> env" where
  "example_env files params train val =
     \<lparr>is_dir = (\<lambda>_. True), listdir = (\<lambda>_. files), YParams = params,
      read_datasets = (\<lambda>_ ds _. if ds = PList [PStr ''train''] then Inr [train] else Inr [val]),
      loss_of = (\<lambda>_ _. 1)\<rparr>"

definition example_args :: args where
  "example_args = \<lparr>modelParams = ''experiments'', logLevel = Some ''info'', logFolder = None\<rparr>"

text \<open>Further collaborators and states used by the examples.\<close>

definition short_frames :: "frame list" where
  "short_frames = [\<lparr>timestamp = 0, observations = [(1, 0, 0), (2, 1, 1)]\<rparr>]"

definition one_experiment :: "pyval \<Rightarrow> pyval \<Rightarrow> int \<Rightarrow> frame list \<Rightarrow> frame list \<Rightarrow> env" where
  "one_experiment pm mf n train val =
     example_env [''a.yaml''] (\<lambda>_. example_hparams ''exp'' 1 pm mf n) train val"

definition two_experiments :: env where
  "two_experiments =
     example_env [''a.yaml'', ''b.yaml'']
       (\<lambda>f. if f = ''experiments/a.yaml''
            then example_hparams ''a'' 1 (PStr ''social'') (PStr ''models'') 1
            else example_hparams ''b'' 1 (PStr ''social'') PNone 1)
       example_frames example_frames"

definition example_loader :: loader where
  "example_loader =
     (case DataLoader [example_frames] 1 2 2 of
        Inr l \<Rightarrow> l
      | Inl _ \<Rightarrow> \<lparr>sequences = [], num_sequences = 0, empty_dataset_warning = True\<rparr>)"

definition example_session :: session where
  "example_session =
     \<lparr>pipe = TrajectoriesDataset example_loader example_loader 1, events = []\<rparr>"

definition example_positions :: "pos list list" where
  "example_positions = [ [(0, 0), (1, 1)], [(1, 0), (1, 2)], [(2, 0), (0, 0)] ]"

definition example_mask :: "bool list list" where
  "example_mask = [ [True, True], [True, True], [True, False] ]"

section \<open>Notions used in the properties\<close>

text \<open>The window identifiers of the training and validation steps among some events.\<close>

fun step_id :: "event \<Rightarrow> (nat \<times> nat) list" where
  "step_id (EvTrainStep i l) = [i]"
| "step_id (EvValStep i l) = [i]"
| "step_id e = []"

definition stepped :: "event list \<Rightarrow> (nat \<times> nat) list" where
  "stepped evs = concat (map step_id evs)"

text \<open>A path lies inside a directory when it continues the directory after a separator.\<close>

definition inside :: "string \<Rightarrow> string \<Rightarrow> bool" where
  "inside p dir \<longleftrightarrow> take (Suc (length dir)) p = dir @ ''/''"

definition absolute :: "string \<Rightarrow> bool" where
  "absolute p \<longleftrightarrow> p \<noteq> [] \<and> hd p = CHR ''/''"

fun is_list :: "pyval \<Rightarrow> bool" where
  "is_list (PList vs) = True"
| "is_list v = False"

text \<open>
  The frames of a window are the \<open>n\<close> consecutive frames of its dataset that start at
  its first frame.
\<close>

definition spans :: "frame list list \<Rightarrow> nat \<Rightarrow> window \<Rightarrow> bool" where
  "spans data n w \<longleftrightarrow>
     dataset_index w < length data
     \<and> first_frame w + n \<le> length (data ! dataset_index w)
     \<and> wframes w = take n (drop (first_frame w) (data ! dataset_index w))"

text \<open>The parsed datasets that the loader of the split \<open>key\<close> reads.\<close>

definition split_frames :: "env \<Rightarrow> hparams \<Rightarrow> string \<Rightarrow> error + frame list list" where
  "split_frames env hp key =
     bindE (getattr hp ''dataPath'') (\<lambda>data_path.
     bindE (getattr hp key) (\<lambda>datasets.
     bindE (getattr hp ''delimiter'') (\<lambda>delimiter.
       read_datasets env data_path datasets delimiter)))"

section \<open>Basic facts\<close>

lemma bindE_Inl [simp]: "bindE (Inl e) f = Inl e"
  by (simp add: bindE_def)

lemma bindE_Inr [simp]: "bindE (Inr v) f = f v"
  by (simp add: bindE_def)

lemma bindE_eq_Inr:
  "bindE m f = Inr r \<longleftrightarrow> (\<exists>v. m = Inr v \<and> f v = Inr r)"
  by (cases m) simp_all

lemma stepped_append [simp]: "stepped (xs @ ys) = stepped xs @ stepped ys"
  by (simp add: stepped_def)

lemma stepped_simps [simp]:
  "stepped [] = []"
  "stepped (e # es) = step_id e @ stepped es"
  by (simp_all add: stepped_def)

section \<open>The logger set-up reads a misspelt attribute\<close>

text \<open>
  C9. When the command line gives no level, the logger set-up decides by the attribute
  \<^verbatim>\<open>logLeve\<close> of the parameters: if the parameters object has no such attribute the
  access raises \<open>AttributeError\<close> (whatever \<^verbatim>\<open>logLevel\<close> holds), so the set-up never
  returns and a configuration that defines only \<^verbatim>\<open>logLevel\<close> never has its level
  applied; if \<^verbatim>\<open>logLeve\<close> is \<open>None\<close> the level stays \<open>INFO\<close>; and only when
  \<^verbatim>\<open>logLeve\<close> holds a value is \<^verbatim>\<open>logLevel\<close> read and applied.
\<close>

theorem logger_level_reads_logLeve:
  assumes "logLevel a = None"
  shows "logger_level hp a =
           (case map_of hp ''logLeve'' of
              None \<Rightarrow> Inl (AttributeError ''logLeve'')
            | Some PNone \<Rightarrow> Inr ''INFO''
            | Some _ \<Rightarrow> bindE (getattr hp ''logLevel'') upper)
         \<and> (map_of hp ''logLeve'' = None \<longrightarrow> (\<forall>c. logger hp a d \<noteq> Inr c))"
proof
  show "logger_level hp a =
           (case map_of hp ''logLeve'' of
              None \<Rightarrow> Inl (AttributeError ''logLeve'')
            | Some PNone \<Rightarrow> Inr ''INFO''
            | Some _ \<Rightarrow> bindE (getattr hp ''logLevel'') upper)"
    using assms
    by (simp add: logger_level_def getattr_def split: option.splits pyval.splits)
next
  show "map_of hp ''logLeve'' = None \<longrightarrow> (\<forall>c. logger hp a d \<noteq> Inr c)"
  proof
    assume "map_of hp ''logLeve'' = None"
    with assms have "logger_level hp a = Inl (AttributeError ''logLeve'')"
      by (simp add: logger_level_def getattr_def)
    then show "\<forall>c. logger hp a d \<noteq> Inr c"
      by (auto simp: logger_def bindE_eq_Inr)
  qed
qed

text \<open>
  An experiment named \<open>exp\<close> whose parameters define \<^verbatim>\<open>logLevel\<close> only, started
  without a level on the command line.
\<close>

theorem logger_level_reads_logLeve_witness:
  "logLevel \<lparr>modelParams = ''exp.yaml'', logLevel = None, logFolder = None\<rparr> = None
   \<and> logger_level [(''name'', PStr ''exp''), (''logFolder'', PNone), (''logLevel'', PStr ''debug'')]
        \<lparr>modelParams = ''exp.yaml'', logLevel = None, logFolder = None\<rparr>
      = Inl (AttributeError ''logLeve'')
   \<and> (\<forall>c. logger [(''name'', PStr ''exp''), (''logFolder'', PNone), (''logLevel'', PStr ''debug'')]
             \<lparr>modelParams = ''exp.yaml'', logLevel = None, logFolder = None\<rparr> {} \<noteq> Inr c)"
  using logger_level_reads_logLeve
    [of "\<lparr>modelParams = ''exp.yaml'', logLevel = None, logFolder = None\<rparr>"
        "[(''name'', PStr ''exp''), (''logFolder'', PNone), (''logLevel'', PStr ''debug'')]" "{}"]
  by simp

section \<open>An unrecognized pooling module\<close>

text \<open>The events of a session only grow.\<close>

lemma train_steps_events:
  "train_steps env n s = Inr s' \<Longrightarrow> \<exists>evs. events s' = events s @ evs"
proof (induction n arbitrary: s)
  case 0
  then show ?case by simp
next
  case (Suc n)
  from Suc.prems obtain w p where
    rest: "train_steps env n
         (s\<lparr>pipe := p, events := events s @ [EvTrainStep (wid w) (loss_of env (events s) w)]\<rparr>)
       = Inr s'"
    by (auto simp: bindE_eq_Inr)
  from Suc.IH [OF rest] show ?case by auto
qed

lemma val_steps_events:
  "val_steps env n lv s = Inr (lv', s') \<Longrightarrow> \<exists>evs. events s' = events s @ evs"
proof (induction n arbitrary: s lv)
  case 0
  then show ?case by simp
next
  case (Suc n)
  from Suc.prems obtain w p where
    rest: "val_steps env n (lv + loss_of env (events s) w)
         (s\<lparr>pipe := p, events := events s @ [EvValStep (wid w) (loss_of env (events s) w)]\<rparr>)
       = Inr (lv', s')"
    by (auto simp: bindE_eq_Inr Let_def)
  from Suc.IH [OF rest] show ?case by auto
qed

lemma run_epoch_events:
  assumes "run_epoch env trl vl w epoch s = Inr s'"
  shows "\<exists>evs. events s' = events s @ evs"
proof -
  from assms obtain s1 s2 where
    t: "training_phase env trl s = Inr s1" and v: "validation_phase env vl epoch s1 = Inr s2"
    and c: "save_checkpoint w epoch s2 = Inr s'"
    by (auto simp: run_epoch_def bindE_eq_Inr)
  from t obtain e1 where e1: "events s1 = events s @ e1"
    by (auto simp: training_phase_def dest!: train_steps_events)
  from v obtain e2 where e2: "events s2 = events s1 @ e2"
    by (auto simp: validation_phase_def bindE_eq_Inr dest!: val_steps_events)
  from c obtain e3 where e3: "events s' = events s2 @ e3"
    by (auto simp: save_checkpoint_def bindE_eq_Inr split: if_splits)
  show ?thesis using e1 e2 e3 by simp
qed

lemma epochs_loop_events:
  "epochs_loop env trl vl w k epoch s = Inr s' \<Longrightarrow> \<exists>evs. events s' = events s @ evs"
proof (induction k arbitrary: epoch s)
  case 0
  then show ?case by simp
next
  case (Suc k)
  from Suc.prems obtain s1 where
    a: "run_epoch env trl vl w epoch s = Inr s1"
    and b: "epochs_loop env trl vl w k (epoch + 1) s1 = Inr s'"
    by (auto simp: bindE_eq_Inr)
  from run_epoch_events [OF a] Suc.IH [OF b] show ?case by auto
qed

lemma run_session_events:
  assumes "run_session env hp trl vl w s = Inr s'"
  shows "\<exists>evs. events s' = events s @ evs"
proof -
  from assms obtain n s1 where
    a: "epochs_loop env trl vl w (nat n) 0 s = Inr s1" and b: "save_final w s1 = Inr s'"
    by (auto simp: run_session_def bindE_eq_Inr)
  from b obtain e where "events s' = events s1 @ e"
    by (auto simp: save_final_def bindE_eq_Inr split: if_splits)
  with epochs_loop_events [OF a] show ?thesis by auto
qed

lemma setup_saving_trace: "setup_saving hp w = Inr w' \<Longrightarrow> trace w' = trace w"
  by (auto simp: setup_saving_def bindE_eq_Inr Let_def split: if_splits)

lemma select_pooling_unrecognized:
  assumes "getattr hp ''poolingModule'' = Inr pm" and "\<not> is_list pm" and "\<not> recognized pm"
  shows "select_pooling hp = Inr None"
  using assms by (cases pm) (auto simp: select_pooling_def recognized_def)

text \<open>
  C1, as the script has it. For every configuration whose \<^verbatim>\<open>poolingModule\<close> is a
  single value that is neither a list nor one of the names \<open>social\<close> and
  \<open>occupancy\<close>, the selection of lines 145 to 161 raises nothing and leaves the pooling
  module \<open>None\<close>; an experiment that completes has built both loaders first and then the
  model with no pooling module.
\<close>

theorem unrecognized_pooling_builds_model:
  assumes "getattr hp ''poolingModule'' = Inr pm" and "\<not> is_list pm" and "\<not> recognized pm"
  shows "select_pooling hp = Inr None
       \<and> (\<forall>w'. YParams env path = hp \<and> run_experiment env a w path = Inr w'
            \<longrightarrow> (\<exists>n m rest.
                   trace w' = trace w @ [EvLoader Train n, EvLoader Val m, EvModel None] @ rest))"
proof (intro conjI allI impI)
  show sel: "select_pooling hp = Inr None"
    by (rule select_pooling_unrecognized [OF assms])
  fix w'
  assume a: "YParams env path = hp \<and> run_experiment env a w path = Inr w'"
  then have r: "run_experiment env a w path = Inr w'" and hp: "YParams env path = hp"
    by simp_all
  from r show
    "\<exists>n m rest. trace w' = trace w @ [EvLoader Train n, EvLoader Val m, EvModel None] @ rest"
    unfolding hp [symmetric] using sel [unfolded hp [symmetric] ]
    by (auto simp: run_experiment_def bindE_eq_Inr Let_def
             dest!: run_session_events setup_saving_trace)
qed

text \<open>
  An experiment with the pooling module \<open>foo\<close>: the selection gives \<open>None\<close>, and the
  run builds the loaders, then the model without pooling, and trains to the end.
\<close>

theorem unrecognized_pooling_builds_model_witness:
  "getattr (example_hparams ''exp'' 1 (PStr ''foo'') (PStr ''models'') 1) ''poolingModule''
     = Inr (PStr ''foo'')
   \<and> \<not> is_list (PStr ''foo'') \<and> \<not> recognized (PStr ''foo'')
   \<and> select_pooling (example_hparams ''exp'' 1 (PStr ''foo'') (PStr ''models'') 1) = Inr None
   \<and> (\<exists>w' n m rest.
        run_experiment
          (one_experiment (PStr ''foo'') (PStr ''models'') 1 example_frames example_frames)
          example_args (initial_world {}) ''experiments/a.yaml'' = Inr w'
        \<and> trace w' = [EvLoader Train n, EvLoader Val m, EvModel None] @ rest)"
proof -
  let ?hp = "example_hparams ''exp'' 1 (PStr ''foo'') (PStr ''models'') 1"
  let ?env = "one_experiment (PStr ''foo'') (PStr ''models'') 1 example_frames example_frames"
  have h1: "getattr ?hp ''poolingModule'' = Inr (PStr ''foo'')" by code_simp
  have h2: "\<not> is_list (PStr ''foo'')" by simp
  have h3: "\<not> recognized (PStr ''foo'')" by (simp add: recognized_def)
  have y: "YParams ?env ''experiments/a.yaml'' = ?hp"
    by (simp add: one_experiment_def example_env_def)
  have "\<exists>w'. run_experiment ?env example_args (initial_world {}) ''experiments/a.yaml'' = Inr w'"
    by (rule exI [of _ "\<lparr>dirs = {''models/exp/checkpoints'', ''models/exp'', ''models''},
        trace =
          [EvLoader Train 2, EvLoader Val 2, EvModel None, EvInit Train,
           EvTrainStep (0, 0) 1, EvTrainStep (0, 1) 1, EvInit Val,
           EvValStep (0, 0) 1, EvValStep (0, 1) 1, EvMeanVal 1 1,
           EvSave ''exp'' ''models/exp/checkpoints/exp'' (Some 1),
           EvSave ''exp'' ''models/exp/exp'' None, EvReset],
        save_model = Some True, model_path = Some ''models/exp/exp'',
        checkpoints_path = Some ''models/exp/checkpoints/exp'',
        saver = Some ''exp''\<rparr>"]) code_simp
  then obtain w' where
    r: "run_experiment ?env example_args (initial_world {}) ''experiments/a.yaml'' = Inr w'"
    by blast
  from unrecognized_pooling_builds_model
         [OF h1 h2 h3, of ?env "''experiments/a.yaml''" example_args "initial_world {}"] y r
  obtain n m rest where
    "trace w' = trace (initial_world {}) @ [EvLoader Train n, EvLoader Val m, EvModel None] @ rest"
    by blast
  then have "trace w' = [EvLoader Train n, EvLoader Val m, EvModel None] @ rest"
    by (simp add: initial_world_def)
  with h1 h2 h3 r select_pooling_unrecognized [OF h1 h2 h3] show ?thesis by blast
qed

text \<open>
  The claim as stated fails: with the pooling module \<open>foo\<close> no error is raised, both
  loaders are built before the selection, and the model is built with no pooling module.
\<close>

theorem unknown_pooling_counterexample:
  "select_pooling (example_hparams ''exp'' 1 (PStr ''foo'') (PStr ''models'') 1) = Inr None
   \<and> main (one_experiment (PStr ''foo'') (PStr ''models'') 1 example_frames example_frames)
       example_args {}
     = Inr \<lparr>dirs = {''models/exp/checkpoints'', ''models/exp'', ''models''},
        trace =
          [EvLoader Train 2, EvLoader Val 2, EvModel None, EvInit Train,
           EvTrainStep (0, 0) 1, EvTrainStep (0, 1) 1, EvInit Val,
           EvValStep (0, 0) 1, EvValStep (0, 1) 1, EvMeanVal 1 1,
           EvSave ''exp'' ''models/exp/checkpoints/exp'' (Some 1),
           EvSave ''exp'' ''models/exp/exp'' None, EvReset],
        save_model = Some True, model_path = Some ''models/exp/exp'',
        checkpoints_path = Some ''models/exp/checkpoints/exp'',
        saver = Some ''exp''\<rparr>"
  by code_simp

section \<open>Iterating the pipeline\<close>

lemma iterate_train:
  "active p = Some Train \<Longrightarrow> train_pos p \<le> length (train_windows p) \<Longrightarrow>
   iterate n p =
     (if train_pos p + n \<le> length (train_windows p)
      then Inr (take n (drop (train_pos p) (train_windows p)), p\<lparr>train_pos := train_pos p + n\<rparr>)
      else Inl EndOfEpoch)"
proof (induction n arbitrary: p)
  case 0
  then show ?case by simp
next
  case (Suc n)
  show ?case
  proof (cases "train_pos p < length (train_windows p)")
    case True
    let ?p' = "p\<lparr>train_pos := Suc (train_pos p)\<rparr>"
    have adv: "advance p = Inr (train_windows p ! train_pos p, ?p')"
      using Suc.prems True by (simp add: advance_def)
    have act: "active ?p' = Some Train" "train_pos ?p' \<le> length (train_windows ?p')"
      using Suc.prems True by simp_all
    show ?thesis
      using True by (simp add: adv Suc.IH [OF act] Cons_nth_drop_Suc [symmetric])
  next
    case False
    then show ?thesis using Suc.prems by (simp add: advance_def)
  qed
qed

lemma iterate_val:
  "active p = Some Val \<Longrightarrow> val_pos p \<le> length (val_windows p) \<Longrightarrow>
   iterate n p =
     (if val_pos p + n \<le> length (val_windows p)
      then Inr (take n (drop (val_pos p) (val_windows p)), p\<lparr>val_pos := val_pos p + n\<rparr>)
      else Inl EndOfEpoch)"
proof (induction n arbitrary: p)
  case 0
  then show ?case by simp
next
  case (Suc n)
  show ?case
  proof (cases "val_pos p < length (val_windows p)")
    case True
    let ?p' = "p\<lparr>val_pos := Suc (val_pos p)\<rparr>"
    have adv: "advance p = Inr (val_windows p ! val_pos p, ?p')"
      using Suc.prems True by (simp add: advance_def)
    have act: "active ?p' = Some Val" "val_pos ?p' \<le> length (val_windows ?p')"
      using Suc.prems True by simp_all
    show ?thesis
      using True by (simp add: adv Suc.IH [OF act] Cons_nth_drop_Suc [symmetric])
  next
    case False
    then show ?thesis using Suc.prems by (simp add: advance_def)
  qed
qed

lemma iterate_init_train:
  "iterate n (init_train p) =
     (if n \<le> length (train_windows p)
      then Inr (take n (train_windows p), p\<lparr>train_pos := n, active := Some Train\<rparr>)
      else Inl EndOfEpoch)"
  by (simp add: iterate_train init_train_def)

lemma iterate_init_val:
  "iterate n (init_val p) =
     (if n \<le> length (val_windows p)
      then Inr (take n (val_windows p), p\<lparr>val_pos := n, active := Some Val\<rparr>)
      else Inl EndOfEpoch)"
  by (simp add: iterate_val init_val_def)

text \<open>The counted loops of the script advance the pipeline as \<open>iterate\<close> does.\<close>

lemma train_steps_Inl:
  "iterate n (pipe s) = Inl e \<Longrightarrow> train_steps env n s = Inl e"
proof (induction n arbitrary: s)
  case 0
  then show ?case by simp
next
  case (Suc n)
  then show ?case
    by (cases "advance (pipe s)") (auto simp: bindE_def split: sum.splits prod.splits)
qed

lemma train_steps_Inr:
  "iterate n (pipe s) = Inr (ws, p) \<Longrightarrow>
   \<exists>evs. train_steps env n s = Inr \<lparr>pipe = p, events = events s @ evs\<rparr>
         \<and> stepped evs = map wid ws \<and> length evs = n"
proof (induction n arbitrary: s ws)
  case 0
  then show ?case by simp
next
  case (Suc n)
  from Suc.prems obtain w p' ws' where
    adv: "advance (pipe s) = Inr (w, p')" and it: "iterate n p' = Inr (ws', p)"
    and ws: "ws = w # ws'"
    by (auto simp: bindE_def split: sum.splits prod.splits)
  let ?s' = "s\<lparr>pipe := p',
               events := events s @ [EvTrainStep (wid w) (loss_of env (events s) w)]\<rparr>"
  from it have "iterate n (pipe ?s') = Inr (ws', p)" by simp
  from Suc.IH [OF this] obtain evs where
    "train_steps env n ?s' = Inr \<lparr>pipe = p, events = events ?s' @ evs\<rparr>"
    "stepped evs = map wid ws'" "length evs = n" by blast
  then show ?case
    using adv ws
    by (intro exI [of _ "EvTrainStep (wid w) (loss_of env (events s) w) # evs"]) simp
qed

lemma val_steps_Inl:
  "iterate n (pipe s) = Inl e \<Longrightarrow> val_steps env n lv s = Inl e"
proof (induction n arbitrary: s lv)
  case 0
  then show ?case by simp
next
  case (Suc n)
  then show ?case
    by (cases "advance (pipe s)") (auto simp: bindE_def Let_def split: sum.splits prod.splits)
qed

lemma val_steps_Inr:
  "iterate n (pipe s) = Inr (ws, p) \<Longrightarrow>
   \<exists>evs lv'. val_steps env n lv s = Inr (lv', \<lparr>pipe = p, events = events s @ evs\<rparr>)
         \<and> stepped evs = map wid ws \<and> length evs = n"
proof (induction n arbitrary: s ws lv)
  case 0
  then show ?case by simp
next
  case (Suc n)
  from Suc.prems obtain w p' ws' where
    adv: "advance (pipe s) = Inr (w, p')" and it: "iterate n p' = Inr (ws', p)"
    and ws: "ws = w # ws'"
    by (auto simp: bindE_def split: sum.splits prod.splits)
  let ?l = "loss_of env (events s) w"
  let ?s' = "s\<lparr>pipe := p', events := events s @ [EvValStep (wid w) ?l]\<rparr>"
  from it have "iterate n (pipe ?s') = Inr (ws', p)" by simp
  from Suc.IH [OF this, of "lv + ?l"] obtain evs lv' where
    "val_steps env n (lv + ?l) ?s' = Inr (lv', \<lparr>pipe = p, events = events ?s' @ evs\<rparr>)"
    "stepped evs = map wid ws'" "length evs = n" by blast
  then show ?case
    using adv ws
    by (intro exI [of _ "EvValStep (wid w) ?l # evs"] exI [of _ lv']) (simp add: Let_def)
qed

lemma training_phase_counts:
  assumes "nat (num_sequences trl) \<le> length (train_windows (pipe s))"
  shows "\<exists>s'. training_phase env trl s = Inr s'
            \<and> train_pos (pipe s') = nat (num_sequences trl)
            \<and> stepped (drop (length (events s) + 1) (events s'))
                = map wid (take (nat (num_sequences trl)) (train_windows (pipe s)))"
proof -
  let ?n = "nat (num_sequences trl)"
  let ?s0 = "s\<lparr>pipe := init_train (pipe s), events := events s @ [EvInit Train]\<rparr>"
  let ?p = "(pipe s)\<lparr>train_pos := ?n, active := Some Train\<rparr>"
  have "iterate ?n (pipe ?s0) = Inr (take ?n (train_windows (pipe s)), ?p)"
    using assms by (simp add: iterate_init_train)
  from train_steps_Inr [OF this, of env] obtain evs where
    "train_steps env ?n ?s0 = Inr \<lparr>pipe = ?p, events = events ?s0 @ evs\<rparr>"
    "stepped evs = map wid (take ?n (train_windows (pipe s)))"
    by blast
  then show ?thesis by (simp add: training_phase_def)
qed

lemma training_phase_past_end:
  assumes "length (train_windows (pipe s)) < nat (num_sequences trl)"
  shows "training_phase env trl s = Inl EndOfEpoch"
proof -
  let ?s0 = "s\<lparr>pipe := init_train (pipe s), events := events s @ [EvInit Train]\<rparr>"
  have "iterate (nat (num_sequences trl)) (pipe ?s0) = Inl EndOfEpoch"
    using assms by (simp add: iterate_init_train)
  then show ?thesis by (simp add: training_phase_def train_steps_Inl)
qed

lemma validation_phase_counts:
  assumes "0 < num_sequences vl" and "nat (num_sequences vl) \<le> length (val_windows (pipe s))"
  shows "\<exists>s'. validation_phase env vl epoch s = Inr s'
            \<and> val_pos (pipe s') = nat (num_sequences vl)
            \<and> stepped (drop (length (events s) + 1) (events s'))
                = map wid (take (nat (num_sequences vl)) (val_windows (pipe s)))"
proof -
  let ?n = "nat (num_sequences vl)"
  let ?s0 = "s\<lparr>pipe := init_val (pipe s), events := events s @ [EvInit Val]\<rparr>"
  let ?p = "(pipe s)\<lparr>val_pos := ?n, active := Some Val\<rparr>"
  have "iterate ?n (pipe ?s0) = Inr (take ?n (val_windows (pipe s)), ?p)"
    using assms by (simp add: iterate_init_val)
  from val_steps_Inr [OF this, of env 0] obtain evs lv where
    "val_steps env ?n 0 ?s0 = Inr (lv, \<lparr>pipe = ?p, events = events ?s0 @ evs\<rparr>)"
    "stepped evs = map wid (take ?n (val_windows (pipe s)))"
    by blast
  then show ?thesis using assms(1) by (simp add: validation_phase_def mean_val_def)
qed

lemma validation_phase_past_end:
  assumes "length (val_windows (pipe s)) < nat (num_sequences vl)"
  shows "validation_phase env vl epoch s = Inl EndOfEpoch"
proof -
  let ?s0 = "s\<lparr>pipe := init_val (pipe s), events := events s @ [EvInit Val]\<rparr>"
  have "iterate (nat (num_sequences vl)) (pipe ?s0) = Inl EndOfEpoch"
    using assms by (simp add: iterate_init_val)
  then show ?thesis by (simp add: validation_phase_def val_steps_Inl)
qed

section \<open>The end of an epoch\<close>

text \<open>
  C4, as the script has it. In each phase of each epoch the script initialises the
  handle and advances it once per counted sequence. When the count is at most the number
  of windows, the phase never advances past the last window: it returns with the cursor
  at the count, having stepped through the first windows in order, and no \<open>EndOfEpoch\<close>
  is raised. The script has no handler: when the count exceeds the number of windows the
  \<open>EndOfEpoch\<close> of the pipeline leaves the phase as its exception.
\<close>

theorem training_loop_counts_sequences:
  "(nat (num_sequences trl) \<le> length (train_windows (pipe s)) \<longrightarrow>
      (\<exists>s'. training_phase env trl s = Inr s'
            \<and> train_pos (pipe s') = nat (num_sequences trl)
            \<and> stepped (drop (length (events s) + 1) (events s'))
                = map wid (take (nat (num_sequences trl)) (train_windows (pipe s)))))
   \<and> (length (train_windows (pipe s)) < nat (num_sequences trl) \<longrightarrow>
        training_phase env trl s = Inl EndOfEpoch)
   \<and> (0 < num_sequences vl \<and> nat (num_sequences vl) \<le> length (val_windows (pipe s)) \<longrightarrow>
      (\<exists>s'. validation_phase env vl epoch s = Inr s'
            \<and> val_pos (pipe s') = nat (num_sequences vl)
            \<and> stepped (drop (length (events s) + 1) (events s'))
                = map wid (take (nat (num_sequences vl)) (val_windows (pipe s)))))
   \<and> (length (val_windows (pipe s)) < nat (num_sequences vl) \<longrightarrow>
        validation_phase env vl epoch s = Inl EndOfEpoch)"
  using training_phase_counts [of trl s env] training_phase_past_end [of s trl env]
    validation_phase_counts [of vl s env epoch] validation_phase_past_end [of s vl env epoch]
  by blast

theorem training_loop_counts_sequences_witness:
  "nat (num_sequences example_loader) \<le> length (train_windows (pipe example_session))
   \<and> 0 < num_sequences example_loader
   \<and> nat (num_sequences example_loader) \<le> length (val_windows (pipe example_session))
   \<and> (\<exists>s'. training_phase two_experiments example_loader example_session = Inr s'
          \<and> train_pos (pipe s') = 2 \<and> stepped (drop 1 (events s')) = [(0, 0), (0, 1)])
   \<and> (\<exists>s'. validation_phase two_experiments example_loader 0 example_session = Inr s'
          \<and> val_pos (pipe s') = 2 \<and> stepped (drop 1 (events s')) = [(0, 0), (0, 1)])"
proof -
  have h1: "nat (num_sequences example_loader) \<le> length (train_windows (pipe example_session))"
    by code_simp
  have h2: "0 < num_sequences example_loader" by code_simp
  have h3: "nat (num_sequences example_loader) \<le> length (val_windows (pipe example_session))"
    by code_simp
  have e: "nat (num_sequences example_loader) = 2" "length (events example_session) = 0"
    "map wid (take 2 (train_windows (pipe example_session))) = [(0, 0), (0, 1)]"
    "map wid (take 2 (val_windows (pipe example_session))) = [(0, 0), (0, 1)]"
    by code_simp+
  from training_loop_counts_sequences
         [of example_loader example_session two_experiments example_loader 0] h1 h2 h3
  show ?thesis by (simp add: e)
qed

text \<open>
  The claim as stated fails. In a run of two epochs each phase takes exactly as many
  steps as there are windows, so no phase ever advances past the last window and nothing is
  raised or caught. Advancing a third time does raise \<open>EndOfEpoch\<close>, and a training loop
  that counts three sequences is ended by it.
\<close>

theorem end_of_epoch_counterexample:
  "main (one_experiment (PStr ''social'') (PStr ''models'') 2 example_frames example_frames)
     example_args {}
   = Inr \<lparr>dirs = {''models/exp/checkpoints'', ''models/exp'', ''models''},
        trace =
          [EvLoader Train 2, EvLoader Val 2, EvModel (Some Social),
           EvInit Train, EvTrainStep (0, 0) 1, EvTrainStep (0, 1) 1,
           EvInit Val, EvValStep (0, 0) 1, EvValStep (0, 1) 1,
           EvMeanVal 1 1,
           EvSave ''exp'' ''models/exp/checkpoints/exp'' (Some 1),
           EvInit Train, EvTrainStep (0, 0) 1, EvTrainStep (0, 1) 1,
           EvInit Val, EvValStep (0, 0) 1, EvValStep (0, 1) 1,
           EvMeanVal 2 1,
           EvSave ''exp'' ''models/exp/checkpoints/exp'' (Some 2),
           EvSave ''exp'' ''models/exp/exp'' None, EvReset],
        save_model = Some True, model_path = Some ''models/exp/exp'',
        checkpoints_path = Some ''models/exp/checkpoints/exp'',
        saver = Some ''exp''\<rparr>
   \<and> iterate 3 (init_train (pipe example_session)) = Inl EndOfEpoch
   \<and> training_phase two_experiments (example_loader\<lparr>num_sequences := 3\<rparr>) example_session
       = Inl EndOfEpoch"
  by code_simp

section \<open>Restarting the windower\<close>

text \<open>
  C5. Iterating from a reset yields the windows of the windower in their order, whatever
  state the handles were in: the training epoch, the validation epoch after it, and the
  next training and validation epochs yield the same window sequences (each window with
  its slot assignment and frame range), since a reset only moves the cursor.
\<close>

theorem windower_restart_deterministic:
  assumes "k \<le> length (train_windows p)" and "j \<le> length (val_windows p)"
  shows "\<exists>p1 p2 p3 p4.
           iterate k (init_train p) = Inr (take k (train_windows p), p1)
         \<and> iterate j (init_val p1) = Inr (take j (val_windows p), p2)
         \<and> iterate k (init_train p2) = Inr (take k (train_windows p), p3)
         \<and> iterate j (init_val p3) = Inr (take j (val_windows p), p4)"
  using assms by (simp add: iterate_init_train iterate_init_val)

theorem windower_restart_deterministic_witness:
  "2 \<le> length (train_windows (pipe example_session))
   \<and> 2 \<le> length (val_windows (pipe example_session))
   \<and> (\<exists>p1 p2 p3 p4.
         iterate 2 (init_train (pipe example_session)) = Inr (sequences example_loader, p1)
       \<and> iterate 2 (init_val p1) = Inr (sequences example_loader, p2)
       \<and> iterate 2 (init_train p2) = Inr (sequences example_loader, p3)
       \<and> iterate 2 (init_val p3) = Inr (sequences example_loader, p4))"
proof -
  have h1: "2 \<le> length (train_windows (pipe example_session))" by code_simp
  have h2: "2 \<le> length (val_windows (pipe example_session))" by code_simp
  have e: "take 2 (train_windows (pipe example_session)) = sequences example_loader"
    "take 2 (val_windows (pipe example_session)) = sequences example_loader"
    by code_simp+
  from windower_restart_deterministic [OF h1 h2] h1 h2 show ?thesis
    by (simp only: e)
qed

section \<open>The windows of a loader\<close>

lemma DataLoader_fields:
  assumes "DataLoader data skip m ts = Inr l"
  shows "num_sequences l = int (length (sequences l))"
    and "empty_dataset_warning l \<longleftrightarrow> sequences l = []"
    and "0 < m" and "0 < ts"
    and "sequences l = concat (map (\<lambda>(d, frames).
                   windower (nat ts) (nat m) (nat skip) d frames) (enumerate 0 data))"
  using assms by (auto simp: DataLoader_def Let_def split: if_splits)

lemma window_starts_bound:
  "i \<in> set (window_starts n ts skip) \<Longrightarrow> i + ts \<le> n"
  by (auto simp: window_starts_def split: if_splits)

lemma windower_window:
  assumes "w \<in> set (windower ts m skip d frames)"
  shows "\<exists>i. i + ts \<le> length frames \<and> w = window_at ts m d frames i"
  using assms by (auto simp: windower_def dest: window_starts_bound)

lemma loader_window:
  assumes "DataLoader data skip m ts = Inr l" and "w \<in> set (sequences l)"
  shows "\<exists>d i. d < length data \<and> i + nat ts \<le> length (data ! d)
               \<and> w = window_at (nat ts) (nat m) d (data ! d) i"
proof -
  from assms obtain d frames where
    df: "(d, frames) \<in> set (enumerate 0 data)"
    and w: "w \<in> set (windower (nat ts) (nat m) (nat skip) d frames)"
    by (auto simp: DataLoader_fields(5) [OF assms(1)])
  from df have "d < length data" and "frames = data ! d"
    by (auto simp: in_set_enumerate_eq)
  with windower_window [OF w] show ?thesis by blast
qed

lemma window_at_fields [simp]:
  "dataset_index (window_at ts m d frames i) = d"
  "first_frame (window_at ts m d frames i) = i"
  "wframes (window_at ts m d frames i) = take ts (drop i frames)"
  "slots (window_at ts m d frames i)
     = take m (first_seen (concat (map agent_ids (take ts (drop i frames)))))"
  by (simp_all add: window_at_def Let_def)

lemma distinct_first_seen: "distinct (first_seen xs)"
  by (simp add: first_seen_def)

lemma loader_spans:
  assumes "DataLoader data skip m ts = Inr l" and "w \<in> set (sequences l)"
  shows "length (wframes w) = nat ts \<and> spans data (nat ts) w"
proof -
  from loader_window [OF assms] obtain d i where
    d: "d < length data" and i: "i + nat ts \<le> length (data ! d)"
    and w: "w = window_at (nat ts) (nat m) d (data ! d) i"
    by blast
  then show ?thesis by (simp add: spans_def)
qed

lemma make_loader_split:
  assumes "make_loader env hp key ts = Inr l"
  shows "\<exists>data skip m. split_frames env hp key = Inr data \<and> DataLoader data skip m ts = Inr l"
  using assms by (auto simp: make_loader_def split_frames_def bindE_eq_Inr)

text \<open>
  The example of the specification: with windows of \<open>8 + 12\<close> frames and a stride of
  1, a dataset of exactly 20 frames with three agents present in all of them gives
  exactly one window, with all three agents and a mask that holds everywhere.
\<close>

lemma windower_twenty_frames:
  "map (\<lambda>w. (first_frame w, length (wframes w), slots w, presence w))
     (windower 20 3 1 0
        (map (\<lambda>t. \<lparr>timestamp = int t, observations = [(1, 0, 0), (2, 1, 1), (3, 2, 2)]\<rparr>)
           [0..<20]))
   = [(0, 20, [1, 2, 3], replicate 20 [True, True, True])]"
  by code_simp

section \<open>The cap on the agents of a window\<close>

text \<open>
  C6. With a positive cap and window length the loader never fails, however many agents
  a scene has, and every window it produces has at most \<open>maxNumPed\<close> agent slots: the
  slots are the first \<open>maxNumPed\<close> agents of the window's frames in first-seen order,
  each agent once, so the agents beyond the cap are dropped.
\<close>

theorem slots_capped:
  "(0 < m \<and> 0 < ts \<longrightarrow> (\<exists>l. DataLoader data skip m ts = Inr l))
   \<and> (\<forall>l w. DataLoader data skip m ts = Inr l \<and> w \<in> set (sequences l)
        \<longrightarrow> int (length (slots w)) \<le> m
            \<and> slots w = take (nat m) (first_seen (concat (map agent_ids (wframes w))))
            \<and> distinct (slots w))"
proof (intro conjI allI impI)
  assume "0 < m \<and> 0 < ts"
  then show "\<exists>l. DataLoader data skip m ts = Inr l"
    by (simp add: DataLoader_def Let_def)
next
  fix l w
  assume a: "DataLoader data skip m ts = Inr l \<and> w \<in> set (sequences l)"
  then obtain d i where w: "w = window_at (nat ts) (nat m) d (data ! d) i"
    using loader_window by blast
  have m: "0 < m" using a DataLoader_fields(3) by blast
  show "int (length (slots w)) \<le> m" using m by (simp add: w)
  show "slots w = take (nat m) (first_seen (concat (map agent_ids (wframes w))))"
    by (simp add: w)
  show "distinct (slots w)" by (simp add: w distinct_first_seen)
qed

text \<open>
  The window of the last two example frames sees the agents 1, 2 and 3; with a cap of two
  its slots are the agents 1 and 2.
\<close>

theorem slots_capped_witness:
  "(0::int) < 2
   \<and> DataLoader [example_frames] 1 2 2 = Inr example_loader
   \<and> list_all (\<lambda>w. int (length (slots w)) \<le> 2) (sequences example_loader)
   \<and> map slots (sequences example_loader) = [ [1, 2], [1, 2] ]
   \<and> map (\<lambda>w. first_seen (concat (map agent_ids (wframes w)))) (sequences example_loader)
       = [ [1, 2], [1, 2, 3] ]"
proof -
  have d: "DataLoader [example_frames] 1 2 2 = Inr example_loader" by code_simp
  have v: "map slots (sequences example_loader) = [ [1, 2], [1, 2] ]"
    "map (\<lambda>w. first_seen (concat (map agent_ids (wframes w)))) (sequences example_loader)
       = [ [1, 2], [1, 2, 3] ]"
    by code_simp+
  from slots_capped [of 2 2 "[example_frames]" 1] d
  have "\<forall>w \<in> set (sequences example_loader). int (length (slots w)) \<le> 2"
    by blast
  then have "list_all (\<lambda>w. int (length (slots w)) \<le> 2) (sequences example_loader)"
    by (simp add: list_all_iff)
  with d v show ?thesis by simp
qed

section \<open>The length of a window\<close>

text \<open>
  C7. The window length that \<^verbatim>\<open>main\<close> passes to the training loader and to the
  validation loader is \<open>obsLen + predLen\<close>, and every window of either loader consists
  of exactly that many consecutive frames of its dataset.
\<close>

theorem window_length_fixed:
  assumes "load_data env hp = Inr (trl, vl)"
  shows "\<exists>obs pred tdata vdata.
           get_int hp ''obsLen'' = Inr obs \<and> get_int hp ''predLen'' = Inr pred
         \<and> make_loader env hp ''trainDatasets'' (obs + pred) = Inr trl
         \<and> make_loader env hp ''validationDatasets'' (obs + pred) = Inr vl
         \<and> split_frames env hp ''trainDatasets'' = Inr tdata
         \<and> split_frames env hp ''validationDatasets'' = Inr vdata
         \<and> (\<forall>w \<in> set (sequences trl).
               length (wframes w) = nat (obs + pred) \<and> spans tdata (nat (obs + pred)) w)
         \<and> (\<forall>w \<in> set (sequences vl).
               length (wframes w) = nat (obs + pred) \<and> spans vdata (nat (obs + pred)) w)"
proof -
  from assms obtain obs pred where
    o: "get_int hp ''obsLen'' = Inr obs" and p: "get_int hp ''predLen'' = Inr pred"
    and t: "make_loader env hp ''trainDatasets'' (obs + pred) = Inr trl"
    and v: "make_loader env hp ''validationDatasets'' (obs + pred) = Inr vl"
    by (auto simp: load_data_def trajectory_size_def bindE_eq_Inr)
  from make_loader_split [OF t] obtain tdata sk1 m1 where
    td: "split_frames env hp ''trainDatasets'' = Inr tdata"
    and tl: "DataLoader tdata sk1 m1 (obs + pred) = Inr trl" by blast
  from make_loader_split [OF v] obtain vdata sk2 m2 where
    vd: "split_frames env hp ''validationDatasets'' = Inr vdata"
    and vl: "DataLoader vdata sk2 m2 (obs + pred) = Inr vl" by blast
  show ?thesis
    using o p t v td vd loader_spans [OF tl] loader_spans [OF vl] by blast
qed

theorem window_length_fixed_witness:
  "load_data (one_experiment (PStr ''social'') PNone 1 example_frames example_frames)
     (example_hparams ''exp'' 1 (PStr ''social'') PNone 1) = Inr (example_loader, example_loader)
   \<and> length (sequences example_loader) = 2
   \<and> list_all (\<lambda>w. length (wframes w) = 2 \<and> spans [example_frames] 2 w)
         (sequences example_loader)"
proof -
  let ?env = "one_experiment (PStr ''social'') PNone 1 example_frames example_frames"
  let ?hp = "example_hparams ''exp'' 1 (PStr ''social'') PNone 1"
  have h: "load_data ?env ?hp = Inr (example_loader, example_loader)" by code_simp
  have e: "get_int ?hp ''obsLen'' = Inr 1" "get_int ?hp ''predLen'' = Inr 1"
    "split_frames ?env ?hp ''trainDatasets'' = Inr [example_frames]"
    "length (sequences example_loader) = 2"
    by code_simp+
  from window_length_fixed [OF h] e
  have "\<forall>w \<in> set (sequences example_loader).
          length (wframes w) = 2 \<and> spans [example_frames] 2 w"
    by auto
  then have "list_all (\<lambda>w. length (wframes w) = 2 \<and> spans [example_frames] 2 w)
               (sequences example_loader)"
    by (simp add: list_all_iff)
  with h e show ?thesis by simp
qed

section \<open>A split without windows\<close>

text \<open>
  The training loop over a loader that counts no sequence: the phase initialises the
  iterator, takes no step and returns normally, and nothing is reported.
\<close>

lemma empty_training_phase:
  assumes "num_sequences trl = 0"
  shows "training_phase env trl s
           = Inr (s\<lparr>pipe := init_train (pipe s), events := events s @ [EvInit Train]\<rparr>)"
  using assms by (simp add: training_phase_def)

lemma empty_validation_phase:
  assumes "num_sequences vl = 0"
  shows "validation_phase env vl epoch s = Inl ZeroDivisionError"
  using assms by (simp add: validation_phase_def mean_val_def)

text \<open>
  C2, where the script departs from it. For every validation split that produces zero
  windows the loader is still constructed, counts zero sequences and flags the empty
  dataset, but the script does not survive the epoch: after a validation loop of zero
  steps, line 236 divides the summed loss by the zero count, so the validation phase
  raises \<open>ZeroDivisionError\<close> from every state. Hence no epoch returns normally, every
  epoch whose training phase completes ends in that exception, and so does every session
  of at least one epoch whose first training phase completes.
\<close>

theorem empty_validation_split_crashes:
  assumes "DataLoader data skip m ts = Inr vl" and "sequences vl = []"
  shows "empty_dataset_warning vl \<and> num_sequences vl = 0
       \<and> validation_phase env vl epoch s = Inl ZeroDivisionError
       \<and> (\<forall>s'. run_epoch env trl vl w epoch s \<noteq> Inr s')
       \<and> (\<forall>s1. training_phase env trl s = Inr s1
             \<longrightarrow> run_epoch env trl vl w epoch s = Inl ZeroDivisionError)
       \<and> (\<forall>n s1. get_int hp ''epochs'' = Inr n \<and> 0 < n \<and> training_phase env trl s = Inr s1
             \<longrightarrow> run_session env hp trl vl w s = Inl ZeroDivisionError)"
proof -
  have z: "num_sequences vl = 0" and f: "empty_dataset_warning vl"
    using DataLoader_fields(1,2) [OF assms(1)] assms(2) by simp_all
  have v: "validation_phase env vl e t = Inl ZeroDivisionError" for e t
    by (rule empty_validation_phase [OF z])
  have ep: "run_epoch env trl vl w e t = Inl ZeroDivisionError"
    if "training_phase env trl t = Inr s1" for e t s1
    using that by (simp add: run_epoch_def v)
  have never: "run_epoch env trl vl w epoch s \<noteq> Inr s'" for s'
    by (cases "training_phase env trl s") (simp_all add: run_epoch_def v)
  have sess: "run_session env hp trl vl w s = Inl ZeroDivisionError"
    if "get_int hp ''epochs'' = Inr n \<and> 0 < n \<and> training_phase env trl s = Inr s1" for n s1
  proof -
    from that obtain k where k: "nat n = Suc k" by (cases "nat n") auto
    from that have "run_epoch env trl vl w 0 s = Inl ZeroDivisionError"
      by (simp add: ep)
    with that k show ?thesis by (simp add: run_session_def)
  qed
  show ?thesis using z f v never ep sess by blast
qed

text \<open>
  A validation dataset of one frame with windows of two frames, beside a training
  dataset of three frames: the validation loader is built and flagged, the first epoch
  trains on both training windows, and the run ends in \<open>ZeroDivisionError\<close>. The same
  happens when the training dataset is one frame long as well.
\<close>

theorem empty_validation_split_crashes_witness:
  "DataLoader [short_frames] 1 2 2
     = Inr \<lparr>sequences = [], num_sequences = 0, empty_dataset_warning = True\<rparr>
   \<and> sequences \<lparr>sequences = [], num_sequences = 0, empty_dataset_warning = True\<rparr> = []
   \<and> make_loader (one_experiment (PStr ''social'') (PStr ''models'') 1 example_frames short_frames)
       (example_hparams ''exp'' 1 (PStr ''social'') (PStr ''models'') 1) ''validationDatasets'' 2
     = Inr \<lparr>sequences = [], num_sequences = 0, empty_dataset_warning = True\<rparr>
   \<and> training_phase
       (one_experiment (PStr ''social'') (PStr ''models'') 1 example_frames short_frames)
       example_loader example_session
     = Inr \<lparr>pipe = (pipe example_session)\<lparr>train_pos := 2, active := Some Train\<rparr>,
            events = [EvInit Train, EvTrainStep (0, 0) 1, EvTrainStep (0, 1) 1]\<rparr>
   \<and> run_epoch
       (one_experiment (PStr ''social'') (PStr ''models'') 1 example_frames short_frames)
       example_loader \<lparr>sequences = [], num_sequences = 0, empty_dataset_warning = True\<rparr>
       (initial_world {}) 0 example_session
     = Inl ZeroDivisionError
   \<and> run_session
       (one_experiment (PStr ''social'') (PStr ''models'') 1 example_frames short_frames)
       (example_hparams ''exp'' 1 (PStr ''social'') (PStr ''models'') 1)
       example_loader \<lparr>sequences = [], num_sequences = 0, empty_dataset_warning = True\<rparr>
       (initial_world {}) example_session
     = Inl ZeroDivisionError
   \<and> main (one_experiment (PStr ''social'') (PStr ''models'') 1 example_frames short_frames)
       example_args {}
     = Inl ZeroDivisionError
   \<and> main (one_experiment (PStr ''social'') (PStr ''models'') 1 short_frames short_frames)
       example_args {}
     = Inl ZeroDivisionError"
proof -
  let ?env = "one_experiment (PStr ''social'') (PStr ''models'') 1 example_frames short_frames"
  let ?hp = "example_hparams ''exp'' 1 (PStr ''social'') (PStr ''models'') 1"
  let ?l = "\<lparr>sequences = [], num_sequences = 0, empty_dataset_warning = True\<rparr>"
  let ?s1 = "\<lparr>pipe = (pipe example_session)\<lparr>train_pos := 2, active := Some Train\<rparr>,
              events = [EvInit Train, EvTrainStep (0, 0) 1, EvTrainStep (0, 1) 1]\<rparr>"
  have h1: "DataLoader [short_frames] 1 2 2 = Inr ?l" by code_simp
  have h2: "sequences ?l = []" by simp
  have ml: "make_loader ?env ?hp ''validationDatasets'' 2 = Inr ?l" by code_simp
  have e: "get_int ?hp ''epochs'' = Inr 1" by code_simp
  have t: "training_phase ?env example_loader example_session = Inr ?s1" by code_simp
  have m1: "main ?env example_args {} = Inl ZeroDivisionError" by code_simp
  have m2: "main (one_experiment (PStr ''social'') (PStr ''models'') 1 short_frames short_frames)
       example_args {} = Inl ZeroDivisionError" by code_simp
  from empty_validation_split_crashes
         [OF h1 h2, of ?env 0 example_session example_loader "initial_world {}" ?hp] e t
  have "run_epoch ?env example_loader ?l (initial_world {}) 0 example_session
          = Inl ZeroDivisionError"
    and "run_session ?env ?hp example_loader ?l (initial_world {}) example_session
          = Inl ZeroDivisionError"
    by auto
  with h1 h2 ml t m1 m2 show ?thesis by simp
qed

section \<open>The coordinate round trip\<close>

lemma padd_psub [simp]: "padd p (psub c p) = c"
  by (simp add: padd_def psub_def)

lemma length_cumulative [simp]: "length (cumulative cur ds) = length ds"
  by (induction ds arbitrary: cur) (simp_all add: Let_def)

lemma cumulative_nth:
  "t < length ds \<Longrightarrow>
   cumulative cur ds ! t = map2 padd ((cur # cumulative cur ds) ! t) (ds ! t)"
proof (induction ds arbitrary: cur t)
  case Nil
  then show ?case by simp
next
  case (Cons d ds)
  show ?case
  proof (cases t)
    case 0
    then show ?thesis by (simp add: Let_def)
  next
    case (Suc t')
    with Cons.prems have "t' < length ds" by simp
    from Cons.IH [OF this] show ?thesis by (simp add: Suc Let_def)
  qed
qed

lemma length_toRelative [simp]: "length (toRelative positions msk) = length positions"
  by (simp add: toRelative_def)

lemma toRelative_row:
  "t < length positions \<Longrightarrow>
   toRelative positions msk ! t =
     map (\<lambda>j. if t = 0 then sentinel
              else if msk ! t ! j \<and> msk ! (t - 1) ! j
                   then psub (positions ! t ! j) (positions ! (t - 1) ! j)
                   else sentinel) [0..<length (positions ! t)]"
  by (simp add: toRelative_def)

lemma toAbsolute_0:
  "positions \<noteq> [] \<longrightarrow> toAbsolute origin (toRelative positions msk) ! 0 = origin"
proof (cases "toRelative positions msk")
  case Nil
  then have "length (toRelative positions msk) = 0" by simp
  then show ?thesis by simp
next
  case (Cons r ds)
  then show ?thesis by (simp add: toAbsolute_def)
qed

lemma toAbsolute_Suc:
  assumes "Suc t < length rel"
  shows "toAbsolute origin rel ! Suc t = map2 padd (toAbsolute origin rel ! t) (rel ! Suc t)"
proof (cases rel)
  case Nil
  with assms show ?thesis by simp
next
  case (Cons r ds)
  with assms have "t < length ds" by simp
  from cumulative_nth [OF this, of origin] show ?thesis
    by (simp add: toAbsolute_def Cons)
qed

lemma tensor_shape_row: "tensor_shape x T N \<Longrightarrow> t < T \<Longrightarrow> length (x ! t) = N"
  by (auto simp: tensor_shape_def list_all_length)

lemma mask_chain_Suc: "mask_chain msk j (Suc t) \<longleftrightarrow> mask_chain msk j t \<and> msk ! Suc t ! j"
  by (simp add: mask_chain_def)

lemma round_trip_row:
  assumes "tensor_shape positions T N" and "j < N"
  shows "t < T \<Longrightarrow>
         length (toAbsolute (positions ! 0) (toRelative positions msk) ! t) = N
         \<and> (mask_chain msk j t \<longrightarrow>
              toAbsolute (positions ! 0) (toRelative positions msk) ! t ! j = positions ! t ! j)"
proof (induction t)
  case 0
  then have "positions \<noteq> []" using assms(1) by (auto simp: tensor_shape_def)
  then show ?case
    using tensor_shape_row [OF assms(1) 0] by (simp add: toAbsolute_0)
next
  case (Suc t)
  let ?abs = "toAbsolute (positions ! 0) (toRelative positions msk)"
  have len: "length positions = T" using assms(1) by (simp add: tensor_shape_def)
  have t: "t < T" using Suc.prems by simp
  note IH = Suc.IH [OF t]
  have rowS: "length (positions ! Suc t) = N"
    by (rule tensor_shape_row [OF assms(1) Suc.prems])
  have step: "?abs ! Suc t = map2 padd (?abs ! t) (toRelative positions msk ! Suc t)"
    using Suc.prems len by (simp add: toAbsolute_Suc)
  have rel: "toRelative positions msk ! Suc t =
     map (\<lambda>j. if msk ! Suc t ! j \<and> msk ! t ! j
                   then psub (positions ! Suc t ! j) (positions ! t ! j)
                   else sentinel) [0..<N]"
    using Suc.prems len rowS by (simp add: toRelative_row)
  have l: "length (?abs ! Suc t) = N"
    using IH by (simp add: step rel)
  moreover have "mask_chain msk j (Suc t) \<longrightarrow> ?abs ! Suc t ! j = positions ! Suc t ! j"
  proof
    assume c: "mask_chain msk j (Suc t)"
    then have c': "mask_chain msk j t" and mS: "msk ! Suc t ! j"
      by (simp_all add: mask_chain_Suc)
    have mt: "msk ! t ! j" using c' by (simp add: mask_chain_def)
    from IH c' have prev: "?abs ! t ! j = positions ! t ! j" by simp
    show "?abs ! Suc t ! j = positions ! Suc t ! j"
      using IH assms(2) mS mt prev by (simp add: step rel)
  qed
  ultimately show ?case by simp
qed

text \<open>
  C3. For every position tensor and mask of the same shape, and every agent slot whose
  mask holds at every frame from frame 0 to frame \<open>t\<close>, the absolute positions rebuilt
  from the positions of frame 0 and the relative tensor agree with the original
  positions at frame \<open>t\<close>.
\<close>

theorem coordinate_round_trip:
  assumes "tensor_shape positions T N" and "tensor_shape msk T N"
    and "t < T" and "j < N" and "mask_chain msk j t"
  shows "toAbsolute (positions ! 0) (toRelative positions msk) ! t ! j = positions ! t ! j"
  using round_trip_row [OF assms(1) assms(4) assms(3)] assms(5) by simp

theorem coordinate_round_trip_witness:
  "tensor_shape example_positions 3 2 \<and> tensor_shape example_mask 3 2
   \<and> mask_chain example_mask 0 2
   \<and> toRelative example_positions example_mask
       = [ [(0, 0), (0, 0)], [(1, 0), (0, 1)], [(1, 0), (0, 0)] ]
   \<and> toAbsolute (example_positions ! 0) (toRelative example_positions example_mask) ! 2 ! 0
       = (2, 0)"
proof -
  have h1: "tensor_shape example_positions 3 2" by code_simp
  have h2: "tensor_shape example_mask 3 2" by code_simp
  have h3: "mask_chain example_mask 0 2" by code_simp
  have e: "example_positions ! 2 ! 0 = (2, 0)"
    "toRelative example_positions example_mask
       = [ [(0, 0), (0, 0)], [(1, 0), (0, 1)], [(1, 0), (0, 0)] ]"
    by code_simp+
  have "(2::nat) < 3" and "(0::nat) < 2" by simp_all
  from coordinate_round_trip [OF h1 h2 this h3] h1 h2 h3 e show ?thesis by simp
qed

section \<open>Saving without a model folder\<close>

lemma save_final_unbound:
  "save_model w = None \<Longrightarrow> save_final w s = Inl (UnboundLocalError ''save_model'')"
  by (simp add: save_final_def read_local_def)

lemma save_checkpoint_unbound:
  "save_model w = None \<Longrightarrow> save_checkpoint w epoch s = Inl (UnboundLocalError ''save_model'')"
  by (simp add: save_checkpoint_def read_local_def)

text \<open>
  C8, as the script has it. For an experiment whose \<^verbatim>\<open>modelFolder\<close> is falsy and
  that starts while \<^verbatim>\<open>save_model\<close> is still unbound (no earlier experiment of the
  same invocation had a model folder), nothing is assigned, and the session never ends
  normally: if the training and validation phases of the first epoch complete, the
  guard of line 243 raises \<open>UnboundLocalError\<close>, and with no epoch to run the guard of
  line 253 raises it.
\<close>

theorem unbound_save_model:
  assumes "getattr hp ''modelFolder'' = Inr mf" and "\<not> truthy mf" and "save_model w = None"
  shows "setup_saving hp w = Inr w
       \<and> (\<forall>s'. run_session env hp trl vl w s \<noteq> Inr s')
       \<and> (\<forall>n s1 s2. get_int hp ''epochs'' = Inr n \<and> 0 < n
             \<and> training_phase env trl s = Inr s1 \<and> validation_phase env vl 0 s1 = Inr s2
           \<longrightarrow> run_session env hp trl vl w s = Inl (UnboundLocalError ''save_model''))
       \<and> (\<forall>n. get_int hp ''epochs'' = Inr n \<and> n \<le> 0
           \<longrightarrow> run_session env hp trl vl w s = Inl (UnboundLocalError ''save_model''))"
proof (intro conjI allI impI)
  show "setup_saving hp w = Inr w"
    using assms by (simp add: setup_saving_def)
next
  fix s'
  show "run_session env hp trl vl w s \<noteq> Inr s'"
    using assms(3) by (auto simp: run_session_def bindE_eq_Inr save_final_unbound)
next
  fix n s1 s2
  assume a: "get_int hp ''epochs'' = Inr n \<and> 0 < n
             \<and> training_phase env trl s = Inr s1 \<and> validation_phase env vl 0 s1 = Inr s2"
  then obtain k where k: "nat n = Suc k" by (cases "nat n") auto
  have "run_epoch env trl vl w 0 s = Inl (UnboundLocalError ''save_model'')"
    using a assms(3) by (simp add: run_epoch_def save_checkpoint_unbound)
  then show "run_session env hp trl vl w s = Inl (UnboundLocalError ''save_model'')"
    using a k by (simp add: run_session_def)
next
  fix n
  assume "get_int hp ''epochs'' = Inr n \<and> n \<le> 0"
  then show "run_session env hp trl vl w s = Inl (UnboundLocalError ''save_model'')"
    using assms(3) by (simp add: run_session_def save_final_unbound)
qed

text \<open>A single experiment without a model folder, with one epoch.\<close>

theorem unbound_save_model_witness:
  "getattr (example_hparams ''exp'' 1 (PStr ''social'') PNone 1) ''modelFolder'' = Inr PNone
   \<and> \<not> truthy PNone
   \<and> save_model (initial_world {}) = None
   \<and> setup_saving (example_hparams ''exp'' 1 (PStr ''social'') PNone 1) (initial_world {})
       = Inr (initial_world {})
   \<and> run_session (one_experiment (PStr ''social'') PNone 1 example_frames example_frames)
       (example_hparams ''exp'' 1 (PStr ''social'') PNone 1) example_loader example_loader
       (initial_world {}) example_session
       = Inl (UnboundLocalError ''save_model'')
   \<and> main (one_experiment (PStr ''social'') PNone 1 example_frames example_frames)
       example_args {}
       = Inl (UnboundLocalError ''save_model'')"
proof -
  let ?hp = "example_hparams ''exp'' 1 (PStr ''social'') PNone 1"
  let ?env = "one_experiment (PStr ''social'') PNone 1 example_frames example_frames"
  let ?s1 = "\<lparr>pipe = (pipe example_session)\<lparr>train_pos := 2, active := Some Train\<rparr>,
              events = [EvInit Train, EvTrainStep (0, 0) 1, EvTrainStep (0, 1) 1]\<rparr>"
  let ?s2 = "\<lparr>pipe = (pipe example_session)\<lparr>train_pos := 2, val_pos := 2, active := Some Val\<rparr>,
              events = [EvInit Train, EvTrainStep (0, 0) 1, EvTrainStep (0, 1) 1,
                        EvInit Val, EvValStep (0, 0) 1, EvValStep (0, 1) 1, EvMeanVal 1 1]\<rparr>"
  have h1: "getattr ?hp ''modelFolder'' = Inr PNone" by code_simp
  have h2: "\<not> truthy PNone" by simp
  have h3: "save_model (initial_world {}) = None" by (simp add: initial_world_def)
  have e: "get_int ?hp ''epochs'' = Inr 1" by code_simp
  have t: "training_phase ?env example_loader example_session = Inr ?s1" by code_simp
  have v: "validation_phase ?env example_loader 0 ?s1 = Inr ?s2" by code_simp
  have m: "main ?env example_args {} = Inl (UnboundLocalError ''save_model'')" by code_simp
  from unbound_save_model
         [OF h1 h2 h3, of ?env example_loader example_loader example_session] e t v
  have "setup_saving ?hp (initial_world {}) = Inr (initial_world {})"
    and "run_session ?env ?hp example_loader example_loader (initial_world {}) example_session
       = Inl (UnboundLocalError ''save_model'')"
    by auto
  with h1 h2 h3 m show ?thesis by simp
qed

text \<open>
  The claim as stated fails. In an invocation on a folder of two experiments, the first
  with a model folder and the second without, the variable \<^verbatim>\<open>save_model\<close> is still
  bound when the second experiment reaches the guard: no \<open>UnboundLocalError\<close> is raised,
  and the saver and the paths of the first experiment are used again.
\<close>

theorem stale_save_model_counterexample:
  "map (\<lambda>f. map_of (YParams two_experiments f) ''modelFolder'')
     (experiments_of two_experiments example_args)
     = [Some (PStr ''models''), Some PNone]
   \<and> main two_experiments example_args {}
     = Inr \<lparr>dirs = {''models/a/checkpoints'', ''models/a'', ''models''},
        trace =
          [EvLoader Train 2, EvLoader Val 2, EvModel (Some Social),
           EvInit Train, EvTrainStep (0, 0) 1, EvTrainStep (0, 1) 1,
           EvInit Val, EvValStep (0, 0) 1, EvValStep (0, 1) 1,
           EvMeanVal 1 1, EvSave ''a'' ''models/a/checkpoints/a'' (Some 1),
           EvSave ''a'' ''models/a/a'' None, EvReset, EvLoader Train 2,
           EvLoader Val 2, EvModel (Some Social), EvInit Train,
           EvTrainStep (0, 0) 1, EvTrainStep (0, 1) 1, EvInit Val,
           EvValStep (0, 0) 1, EvValStep (0, 1) 1, EvMeanVal 1 1,
           EvSave ''a'' ''models/a/checkpoints/a'' (Some 1),
           EvSave ''a'' ''models/a/a'' None, EvReset],
        save_model = Some True, model_path = Some ''models/a/a'',
        checkpoints_path = Some ''models/a/checkpoints/a'',
        saver = Some ''a''\<rparr>"
  by code_simp

section \<open>The checkpoints folder\<close>

lemma path_join_relative:
  "\<not> absolute b \<Longrightarrow> a \<noteq> [] \<Longrightarrow> last a \<noteq> CHR ''/'' \<Longrightarrow> path_join a b = a @ ''/'' @ b"
  by (auto simp: path_join_def absolute_def)

lemma path_join_checkpoints:
  "path_join a ''checkpoints''
     = (if a = [] \<or> last a = CHR ''/'' then a @ ''checkpoints'' else a @ ''/checkpoints'')"
  by (simp add: path_join_def)

lemma inside_checkpoints:
  "\<not> absolute name \<Longrightarrow>
   inside (path_join3 mf ''checkpoints'' name) (path_join mf ''checkpoints'')"
  by (simp add: path_join3_def path_join_checkpoints inside_def path_join_relative)

text \<open>
  C10, as the script has it. The \<^verbatim>\<open>checkpoints\<close> subfolder is created only when the
  model folder of the experiment did not exist. For every experiment whose name is not
  an absolute path and whose model folder exists without a \<^verbatim>\<open>checkpoints\<close>
  subfolder, nothing is created, and the save of every epoch is given a path inside
  the \<^verbatim>\<open>checkpoints\<close> subfolder, which does not exist.
\<close>

theorem checkpoints_folder_missing:
  assumes "getattr hp ''modelFolder'' = Inr (PStr folder)" and "folder \<noteq> []"
    and "get_str hp ''name'' = Inr name"
  shows "(\<forall>w'. setup_saving hp w = Inr w'
            \<and> path_join (path_join folder name) ''checkpoints'' \<in> dirs w'
            \<and> path_join (path_join folder name) ''checkpoints'' \<notin> dirs w
          \<longrightarrow> path_join folder name \<notin> dirs w)
       \<and> (path_join folder name \<in> dirs w
          \<and> path_join (path_join folder name) ''checkpoints'' \<notin> dirs w
          \<and> \<not> absolute name
          \<longrightarrow> (\<exists>w' cp. setup_saving hp w = Inr w'
                \<and> dirs w' = dirs w
                \<and> path_join (path_join folder name) ''checkpoints'' \<notin> dirs w'
                \<and> checkpoints_path w' = Some cp
                \<and> inside cp (path_join (path_join folder name) ''checkpoints'')
                \<and> (\<forall>epoch s. save_checkpoint w' epoch s
                      = Inr (s\<lparr>events := events s @ [EvSave name cp (Some (epoch + 1))]\<rparr>))))"
proof (intro conjI allI impI)
  fix w'
  assume a: "setup_saving hp w = Inr w'
            \<and> path_join (path_join folder name) ''checkpoints'' \<in> dirs w'
            \<and> path_join (path_join folder name) ''checkpoints'' \<notin> dirs w"
  show "path_join folder name \<notin> dirs w"
  proof
    assume "path_join folder name \<in> dirs w"
    with a assms have "dirs w' = dirs w"
      by (auto simp: setup_saving_def as_str_def Let_def)
    with a show False by simp
  qed
next
  assume a: "path_join folder name \<in> dirs w
          \<and> path_join (path_join folder name) ''checkpoints'' \<notin> dirs w
          \<and> \<not> absolute name"
  let ?cp = "path_join3 (path_join folder name) ''checkpoints'' name"
  let ?w' = "w\<lparr>dirs := dirs w, save_model := Some True,
               model_path := Some (path_join (path_join folder name) name),
               checkpoints_path := Some ?cp, saver := Some name\<rparr>"
  have "setup_saving hp w = Inr ?w'"
    using a assms by (simp add: setup_saving_def as_str_def Let_def)
  moreover have "inside ?cp (path_join (path_join folder name) ''checkpoints'')"
    using a by (simp add: inside_checkpoints)
  moreover have "\<forall>epoch s. save_checkpoint ?w' epoch s
                      = Inr (s\<lparr>events := events s @ [EvSave name ?cp (Some (epoch + 1))]\<rparr>)"
    by (simp add: save_checkpoint_def read_local_def)
  ultimately show "\<exists>w' cp. setup_saving hp w = Inr w'
                \<and> dirs w' = dirs w
                \<and> path_join (path_join folder name) ''checkpoints'' \<notin> dirs w'
                \<and> checkpoints_path w' = Some cp
                \<and> inside cp (path_join (path_join folder name) ''checkpoints'')
                \<and> (\<forall>epoch s. save_checkpoint w' epoch s
                      = Inr (s\<lparr>events := events s @ [EvSave name cp (Some (epoch + 1))]\<rparr>))"
    using a by (intro exI [of _ ?w'] exI [of _ ?cp]) simp
qed

text \<open>
  The experiment \<open>exp\<close> with the model folder \<open>models\<close>, started when \<open>models/exp\<close>
  exists without a \<^verbatim>\<open>checkpoints\<close> subfolder: the run creates nothing and saves the
  checkpoint of the epoch to \<open>models/exp/checkpoints/exp\<close>.
\<close>

theorem checkpoints_folder_missing_witness:
  "getattr (example_hparams ''exp'' 1 (PStr ''social'') (PStr ''models'') 1) ''modelFolder''
     = Inr (PStr ''models'')
   \<and> ''models'' \<noteq> []
   \<and> get_str (example_hparams ''exp'' 1 (PStr ''social'') (PStr ''models'') 1) ''name''
     = Inr ''exp''
   \<and> path_join ''models'' ''exp'' \<in> dirs (initial_world {''models'', ''models/exp''})
   \<and> path_join (path_join ''models'' ''exp'') ''checkpoints''
       \<notin> dirs (initial_world {''models'', ''models/exp''})
   \<and> \<not> absolute ''exp''
   \<and> (\<exists>w'. setup_saving (example_hparams ''exp'' 1 (PStr ''social'') (PStr ''models'') 1)
              (initial_world {''models'', ''models/exp''}) = Inr w'
          \<and> dirs w' = {''models'', ''models/exp''}
          \<and> ''models/exp/checkpoints'' \<notin> dirs w'
          \<and> checkpoints_path w' = Some ''models/exp/checkpoints/exp''
          \<and> inside ''models/exp/checkpoints/exp'' ''models/exp/checkpoints'')
   \<and> main (one_experiment (PStr ''social'') (PStr ''models'') 1 example_frames example_frames)
       example_args {''models'', ''models/exp''}
     = Inr \<lparr>dirs = {''models'', ''models/exp''},
        trace =
          [EvLoader Train 2, EvLoader Val 2, EvModel (Some Social),
           EvInit Train, EvTrainStep (0, 0) 1, EvTrainStep (0, 1) 1,
           EvInit Val, EvValStep (0, 0) 1, EvValStep (0, 1) 1,
           EvMeanVal 1 1,
           EvSave ''exp'' ''models/exp/checkpoints/exp'' (Some 1),
           EvSave ''exp'' ''models/exp/exp'' None, EvReset],
        save_model = Some True, model_path = Some ''models/exp/exp'',
        checkpoints_path = Some ''models/exp/checkpoints/exp'',
        saver = Some ''exp''\<rparr>"
proof -
  let ?hp = "example_hparams ''exp'' 1 (PStr ''social'') (PStr ''models'') 1"
  let ?w = "initial_world {''models'', ''models/exp''}"
  have h1: "getattr ?hp ''modelFolder'' = Inr (PStr ''models'')" by code_simp
  have h2: "''models'' \<noteq> []" by simp
  have h3: "get_str ?hp ''name'' = Inr ''exp''" by code_simp
  have p: "path_join ''models'' ''exp'' \<in> dirs ?w"
    "path_join (path_join ''models'' ''exp'') ''checkpoints'' \<notin> dirs ?w"
    "\<not> absolute ''exp''"
    by code_simp+
  have e: "path_join (path_join ''models'' ''exp'') ''checkpoints'' = ''models/exp/checkpoints''"
    "dirs ?w = {''models'', ''models/exp''}"
    "path_join3 (path_join ''models'' ''exp'') ''checkpoints'' ''exp''
       = ''models/exp/checkpoints/exp''"
    by code_simp+
  have s: "setup_saving ?hp ?w
     = Inr (?w\<lparr>save_model := Some True, model_path := Some ''models/exp/exp'',
               checkpoints_path := Some ''models/exp/checkpoints/exp'',
               saver := Some ''exp''\<rparr>)"
    by code_simp
  have run: "main (one_experiment (PStr ''social'') (PStr ''models'') 1 example_frames example_frames)
       example_args {''models'', ''models/exp''}
     = Inr \<lparr>dirs = {''models'', ''models/exp''},
        trace =
          [EvLoader Train 2, EvLoader Val 2, EvModel (Some Social),
           EvInit Train, EvTrainStep (0, 0) 1, EvTrainStep (0, 1) 1,
           EvInit Val, EvValStep (0, 0) 1, EvValStep (0, 1) 1,
           EvMeanVal 1 1,
           EvSave ''exp'' ''models/exp/checkpoints/exp'' (Some 1),
           EvSave ''exp'' ''models/exp/exp'' None, EvReset],
        save_model = Some True, model_path = Some ''models/exp/exp'',
        checkpoints_path = Some ''models/exp/checkpoints/exp'',
        saver = Some ''exp''\<rparr>"
    by code_simp
  from checkpoints_folder_missing [OF h1 h2 h3, of ?w] p
  obtain w' cp where
    w': "setup_saving ?hp ?w = Inr w'" and d: "dirs w' = dirs ?w"
    and n: "path_join (path_join ''models'' ''exp'') ''checkpoints'' \<notin> dirs w'"
    and c: "checkpoints_path w' = Some cp"
    and i: "inside cp (path_join (path_join ''models'' ''exp'') ''checkpoints'')"
    by blast
  from w' s c have cp: "cp = ''models/exp/checkpoints/exp''" by auto
  have "\<exists>w'. setup_saving ?hp ?w = Inr w'
          \<and> dirs w' = {''models'', ''models/exp''}
          \<and> ''models/exp/checkpoints'' \<notin> dirs w'
          \<and> checkpoints_path w' = Some ''models/exp/checkpoints/exp''
          \<and> inside ''models/exp/checkpoints/exp'' ''models/exp/checkpoints''"
    using w' d n c i by (intro exI [of _ w']) (simp add: cp e)
  with h1 h2 h3 p run show ?thesis by simp
qed

text \<open>
  The claim as stated fails for an experiment whose name is an absolute path: the model
  folder is then the name itself, and with the folder \<open>/abs\<close> existing without a
  \<^verbatim>\<open>checkpoints\<close> subfolder the checkpoint path is \<open>/abs\<close>, which is not inside
  \<open>/abs/checkpoints\<close>.
\<close>

theorem absolute_name_counterexample:
  "path_join ''models'' ''/abs'' = ''/abs''
   \<and> path_join (path_join ''models'' ''/abs'') ''checkpoints'' = ''/abs/checkpoints''
   \<and> ''/abs'' \<in> dirs (initial_world {''/abs''})
   \<and> ''/abs/checkpoints'' \<notin> dirs (initial_world {''/abs''})
   \<and> setup_saving (example_hparams ''/abs'' 1 (PStr ''social'') (PStr ''models'') 1)
       (initial_world {''/abs''})
     = Inr \<lparr>dirs = {''/abs''}, trace = [], save_model = Some True,
            model_path = Some ''/abs'', checkpoints_path = Some ''/abs'',
            saver = Some ''/abs''\<rparr>
   \<and> \<not> inside ''/abs'' ''/abs/checkpoints''"
  by code_simp

end
